theory Spec2Isabelle
  imports Main
begin

section \<open>Strings\<close>

text \<open>
  JavaScript strings are modelled as \<open>string\<close> (lists of \<open>char\<close>): a \<open>char\<close> is a
  code unit below 0x100, and code units beyond are not modelled. The character classes
  below are the ASCII ranges the source's regular expressions name, and every other
  character is outside all of them. White space is what \<^verbatim>\<open>trim\<close> and \<^verbatim>\<open>\s\<close> accept
  in that range, the no-break space U+00A0 included. Case conversion maps the ASCII
  letters only: the source compares its results with ASCII text alone (\<^verbatim>\<open>DESC\<close>, the
  denylist's words, the separator \<^verbatim>\<open>;\<close>), and no other letter of the range converts to
  an ASCII letter, a space or the separator.
\<close>

definition is_digit :: "char \<Rightarrow> bool" where
  "is_digit c = (c \<in> set ''0123456789'')"

definition is_lower :: "char \<Rightarrow> bool" where
  "is_lower c = (c \<in> set ''abcdefghijklmnopqrstuvwxyz'')"

definition is_upper :: "char \<Rightarrow> bool" where
  "is_upper c = (c \<in> set ''ABCDEFGHIJKLMNOPQRSTUVWXYZ'')"

text \<open>The class \<^verbatim>\<open>[a-zA-Z0-9_]\<close>, which is also the regular expressions' word class.\<close>

definition ident_char :: "char \<Rightarrow> bool" where
  "ident_char c = (is_lower c \<or> is_upper c \<or> is_digit c \<or> c = CHR ''_'')"

section \<open>rest.ts: the identifier sanitizer\<close>

text \<open>
  \<^verbatim>\<open>
  function sanitizeIdentifier(identifier: string): string {
      if (!identifier || typeof identifier !== 'string') {
          throw new Error('Invalid identifier');
      }
      const sanitized = identifier.replace(/[^a-zA-Z0-9_]/g, '');
      if (sanitized.length === 0 || /^\d/.test(sanitized)) {
          throw new Error('Invalid identifier: must start with letter or underscore');
      }
      return sanitized;
  }
  \<close>
  A thrown \<^verbatim>\<open>Error\<close> is \<open>Inl\<close> of its message. Every caller passes a string (a path
  segment, a query-string key or value, an object key), so the only falsy input is the
  empty string.
\<close>

definition starts_with_digit :: "string \<Rightarrow> bool" where
  "starts_with_digit s = (case s of [] \<Rightarrow> False | c # _ \<Rightarrow> is_digit c)"

definition sanitizeIdentifier :: "string \<Rightarrow> string + string" where
  "sanitizeIdentifier identifier =
     (if identifier = [] then Inl ''Invalid identifier''
      else
        let sanitized = filter ident_char identifier in
        if length sanitized = 0 \<or> starts_with_digit sanitized
        then Inl ''Invalid identifier: must start with letter or underscore''
        else Inr sanitized)"

text \<open>
  \<^verbatim>\<open>
  function sanitizeKeyword(identifier: string): string {
      return '`'+sanitizeIdentifier(identifier)+'`';
  }
  \<close>
\<close>

definition sanitizeKeyword :: "string \<Rightarrow> string + string" where
  "sanitizeKeyword identifier =
     (case sanitizeIdentifier identifier of
        Inl e \<Rightarrow> Inl e
      | Inr s \<Rightarrow> Inr (''`'' @ s @ ''`''))"

section \<open>JavaScript helpers\<close>

text \<open>\<^verbatim>\<open>Array.prototype.join\<close>.\<close>

fun join :: "string \<Rightarrow> string list \<Rightarrow> string" where
  "join sep [] = []"
| "join sep [x] = x"
| "join sep (x # y # ys) = x @ sep @ join sep (y # ys)"

text \<open>\<^verbatim>\<open>String.prototype.split\<close> with a one-character separator.\<close>

fun split_on :: "char \<Rightarrow> string \<Rightarrow> string list" where
  "split_on sep [] = [[]]"
| "split_on sep (c # cs) =
     (if c = sep then [] # split_on sep cs
      else (case split_on sep cs of
              w # ws \<Rightarrow> (c # w) # ws
            | [] \<Rightarrow> [[c]]))"

definition is_space :: "char \<Rightarrow> bool" where
  "is_space c =
     (c \<in> {CHR '' '', CHR 0x09, CHR 0x0A, CHR 0x0B, CHR 0x0C, CHR 0x0D, CHR 0xA0})"

definition trim :: "string \<Rightarrow> string" where
  "trim s = rev (dropWhile is_space (rev (dropWhile is_space s)))"

definition to_lower :: "char \<Rightarrow> char" where
  "to_lower c =
     (case map_of (zip ''ABCDEFGHIJKLMNOPQRSTUVWXYZ'' ''abcdefghijklmnopqrstuvwxyz'') c of
        Some l \<Rightarrow> l
      | None \<Rightarrow> c)"

definition to_upper :: "char \<Rightarrow> char" where
  "to_upper c =
     (case map_of (zip ''abcdefghijklmnopqrstuvwxyz'' ''ABCDEFGHIJKLMNOPQRSTUVWXYZ'') c of
        Some u \<Rightarrow> u
      | None \<Rightarrow> c)"

definition toLowerCase :: "string \<Rightarrow> string" where
  "toLowerCase s = map to_lower s"

definition toUpperCase :: "string \<Rightarrow> string" where
  "toUpperCase s = map to_upper s"

section \<open>Values, the database collaborator and responses\<close>

text \<open>
  A parsed JSON document. An object keeps its own keys, each once, in the order
  \<^verbatim>\<open>Object.keys\<close> lists them; numbers are the integers.
\<close>

datatype json =
    JNull
  | JBool bool
  | JNum int
  | JStr string
  | JArr "json list"
  | JObj "(string \<times> json) list"

text \<open>
  What the handlers bind to a prepared statement: a JSON value (strings included), the
  number \<^verbatim>\<open>parseInt(s)\<close>, \<^verbatim>\<open>undefined\<close>, or a member inherited from
  \<^verbatim>\<open>Object.prototype\<close>.
\<close>

datatype jsvalue =
    Json json
  | ParseInt string
  | Undefined
  | Inherited string

type_synonym call = "string \<times> jsvalue list"

record d1_result =
  success :: bool
  changes :: int
  results :: "json list"

text \<open>
  \<^verbatim>\<open>c.env.DB.prepare(query).bind(...params)\<close> followed by \<^verbatim>\<open>.all()\<close> or \<^verbatim>\<open>.run()\<close>:
  the collaborator either throws (\<open>Inl\<close> of the message) or returns a result.
\<close>

type_synonym database = "string \<Rightarrow> jsvalue list \<Rightarrow> string + d1_result"

datatype payload =
    ErrorBody string
  | ErrorDetails string string
  | ResultBody d1_result
  | CreatedBody json bool
  | UpdatedBody json bool int
  | DeletedBody int
  | TextBody string
  | NoBody

record response =
  status :: nat
  headers :: "(string \<times> string) list"
  payload :: payload

text \<open>\<^verbatim>\<open>c.json(body, status)\<close>; the status defaults to 200.\<close>

definition json_response :: "payload \<Rightarrow> nat \<Rightarrow> response" where
  "json_response b st = \<lparr>status = st, headers = [], payload = b\<rparr>"

text \<open>A handler's outcome: the response, and the statements it sent to the database.\<close>

type_synonym outcome = "response \<times> call list"

text \<open>Own keys and entries of a parsed body; only applied once the body is known to be an object.\<close>

fun entries :: "json \<Rightarrow> (string \<times> json) list" where
  "entries (JObj kvs) = kvs"
| "entries _ = []"

definition keys :: "json \<Rightarrow> string list" where
  "keys data = map fst (entries data)"

definition values_of :: "json \<Rightarrow> json list" where
  "values_of data = map snd (entries data)"

definition object_prototype :: "string list" where
  "object_prototype =
     [''constructor'', ''hasOwnProperty'', ''isPrototypeOf'', ''propertyIsEnumerable'',
      ''toLocaleString'', ''toString'', ''valueOf'', ''__proto__'',
      ''__defineGetter__'', ''__defineSetter__'', ''__lookupGetter__'', ''__lookupSetter__'']"

text \<open>\<^verbatim>\<open>data[col]\<close>: the own property, else the inherited member, else \<^verbatim>\<open>undefined\<close>.\<close>

definition get_prop :: "json \<Rightarrow> string \<Rightarrow> jsvalue" where
  "get_prop data col =
     (case map_of (entries data) col of
        Some v \<Rightarrow> Json v
      | None \<Rightarrow> if col \<in> set object_prototype then Inherited col else Undefined)"

text \<open>\<^verbatim>\<open>key in data\<close>.\<close>

definition has_prop :: "string \<Rightarrow> json \<Rightarrow> bool" where
  "has_prop k data = (k \<in> set (keys data) \<or> k \<in> set object_prototype)"

text \<open>\<^verbatim>\<open>!data || typeof data !== 'object' || Array.isArray(data)\<close>.\<close>

fun falsy :: "json \<Rightarrow> bool" where
  "falsy JNull = True"
| "falsy (JBool b) = (\<not> b)"
| "falsy (JNum n) = (n = 0)"
| "falsy (JStr s) = (s = [])"
| "falsy _ = False"

fun typeof :: "json \<Rightarrow> string" where
  "typeof JNull = ''object''"
| "typeof (JBool _) = ''boolean''"
| "typeof (JNum _) = ''number''"
| "typeof (JStr _) = ''string''"
| "typeof (JArr _) = ''object''"
| "typeof (JObj _) = ''object''"

fun isArray :: "json \<Rightarrow> bool" where
  "isArray (JArr _) = True"
| "isArray _ = False"

definition not_an_object :: "json \<Rightarrow> bool" where
  "not_an_object data = (falsy data \<or> typeof data \<noteq> ''object'' \<or> isArray data)"

text \<open>\<^verbatim>\<open>Object.keys(data).map(sanitizeIdentifier)\<close>: the first failing key throws.\<close>

fun sanitize_each :: "string list \<Rightarrow> string + string list" where
  "sanitize_each [] = Inr []"
| "sanitize_each (k # ks) =
     (case sanitizeIdentifier k of
        Inl e \<Rightarrow> Inl e
      | Inr col \<Rightarrow>
          (case sanitize_each ks of
             Inl e \<Rightarrow> Inl e
           | Inr cols \<Rightarrow> Inr (col # cols)))"

section \<open>rest.ts: handleGet\<close>

definition reserved :: "string list" where
  "reserved = [''sort_by'', ''order'', ''limit'', ''offset'']"

text \<open>
  \<^verbatim>\<open>
  for (const [key, value] of searchParams.entries()) {
      if (['sort_by', 'order', 'limit', 'offset'].includes(key)) continue;
      const sanitizedKey = sanitizeIdentifier(key);
      conditions.push(`${sanitizedKey} = ?`);
      params.push(value);
  }
  \<close>
\<close>

fun search_loop ::
  "(string \<times> string) list \<Rightarrow> string list \<Rightarrow> jsvalue list
     \<Rightarrow> string + (string list \<times> jsvalue list)" where
  "search_loop [] conditions params = Inr (conditions, params)"
| "search_loop ((key, v) # rest) conditions params =
     (if key \<in> set reserved then search_loop rest conditions params
      else
        (case sanitizeIdentifier key of
           Inl e \<Rightarrow> Inl e
         | Inr sanitizedKey \<Rightarrow>
             search_loop rest (conditions @ [sanitizedKey @ '' = ?''])
               (params @ [Json (JStr v)])))"

text \<open>\<^verbatim>\<open>searchParams.get(name)\<close> is the first value of that name; a string is truthy when not empty.\<close>

definition truthy :: "string option \<Rightarrow> bool" where
  "truthy s = (case s of None \<Rightarrow> False | Some v \<Rightarrow> v \<noteq> [])"

definition get_failed :: "string \<Rightarrow> call list \<Rightarrow> outcome" where
  "get_failed message calls =
     (json_response (ErrorDetails ''Failed to fetch records'' message) 400, calls)"

text \<open>
  The sort directive:
  \<^verbatim>\<open>
  const sortBy = searchParams.get('sort_by');
  if (sortBy) {
      const order = searchParams.get('order')?.toUpperCase() === 'DESC' ? 'DESC' : 'ASC';
      query += ` ORDER BY ${sanitizeIdentifier(sortBy)} ${order}`;
  }
  \<close>
\<close>

definition sort_order :: "(string \<times> string) list \<Rightarrow> string" where
  "sort_order searchParams =
     (case map_of searchParams ''order'' of
        None \<Rightarrow> ''ASC''
      | Some v \<Rightarrow> if toUpperCase v = ''DESC'' then ''DESC'' else ''ASC'')"

definition add_sort :: "(string \<times> string) list \<Rightarrow> string \<Rightarrow> string + string" where
  "add_sort searchParams query =
     (case map_of searchParams ''sort_by'' of
        None \<Rightarrow> Inr query
      | Some sortBy \<Rightarrow>
          if sortBy = [] then Inr query
          else
            (case sanitizeIdentifier sortBy of
               Inl e \<Rightarrow> Inl e
             | Inr s \<Rightarrow> Inr (query @ '' ORDER BY '' @ s @ '' '' @ sort_order searchParams)))"

text \<open>
  Pagination:
  \<^verbatim>\<open>
  const limit = searchParams.get('limit');
  if (limit) {
      query += ` LIMIT ?`;
      params.push(parseInt(limit));
      const offset = searchParams.get('offset');
      if (offset) {
          query += ` OFFSET ?`;
          params.push(parseInt(offset));
      }
  }
  \<close>
\<close>

definition add_page ::
  "(string \<times> string) list \<Rightarrow> string \<times> jsvalue list \<Rightarrow> string \<times> jsvalue list" where
  "add_page searchParams qp =
     (case qp of (query, params) \<Rightarrow>
        (case map_of searchParams ''limit'' of
           None \<Rightarrow> (query, params)
         | Some limit \<Rightarrow>
             if limit = [] then (query, params)
             else
               (case map_of searchParams ''offset'' of
                  None \<Rightarrow> (query @ '' LIMIT ?'', params @ [ParseInt limit])
                | Some offset \<Rightarrow>
                    if offset = [] then (query @ '' LIMIT ?'', params @ [ParseInt limit])
                    else (query @ '' LIMIT ?'' @ '' OFFSET ?'',
                          params @ [ParseInt limit] @ [ParseInt offset]))))"

definition handleGet ::
  "database \<Rightarrow> string \<Rightarrow> string option \<Rightarrow> (string \<times> string) list \<Rightarrow> outcome" where
  "handleGet db tableName id' searchParams =
     (case sanitizeKeyword tableName of
        Inl e \<Rightarrow> get_failed e []
      | Inr table \<Rightarrow>
          (case search_loop searchParams
                  (if truthy id' then [''id = ?''] else [])
                  (case id' of None \<Rightarrow> [] | Some i \<Rightarrow> if i = [] then [] else [Json (JStr i)]) of
             Inl e \<Rightarrow> get_failed e []
           | Inr (conditions, params) \<Rightarrow>
               (case add_sort searchParams
                       (if length conditions > 0
                        then ''SELECT * FROM '' @ table @ '' WHERE '' @ join '' AND '' conditions
                        else ''SELECT * FROM '' @ table) of
                  Inl e \<Rightarrow> get_failed e []
                | Inr ordered \<Rightarrow>
                    (case add_page searchParams (ordered, params) of
                       (query, bound) \<Rightarrow>
                         (case db query bound of
                            Inl e \<Rightarrow> get_failed e [(query, bound)]
                          | Inr res \<Rightarrow> (json_response (ResultBody res) 200, [(query, bound)]))))))"

section \<open>rest.ts: handlePost\<close>

text \<open>
  The request body is what \<^verbatim>\<open>await c.req.json()\<close> gives: a parsed document, or a
  thrown error (\<open>Inl\<close> of its message).
  \<^verbatim>\<open>
  const columns = Object.keys(data).map(sanitizeIdentifier);
  const placeholders = columns.map(() => '?').join(', ');
  const query = `INSERT INTO ${table} (${columns.join(', ')}) VALUES (${placeholders})`;
  const params = columns.map(col => data[col]);
  \<close>
\<close>

definition post_failed :: "string \<Rightarrow> call list \<Rightarrow> outcome" where
  "post_failed message calls =
     (json_response (ErrorDetails ''Failed to create record'' message) 400, calls)"

definition handlePost :: "database \<Rightarrow> string \<Rightarrow> string + json \<Rightarrow> outcome" where
  "handlePost db tableName body =
     (case sanitizeKeyword tableName of
        Inl e \<Rightarrow> post_failed e []
      | Inr table \<Rightarrow>
          (case body of
             Inl e \<Rightarrow> post_failed e []
           | Inr data \<Rightarrow>
               if not_an_object data
               then (json_response (ErrorBody ''Invalid data format: Expected object'') 400, [])
               else if length (keys data) = 0
               then (json_response (ErrorBody ''No data provided'') 400, [])
               else
                 (case sanitize_each (keys data) of
                    Inl e \<Rightarrow> post_failed e []
                  | Inr columns \<Rightarrow>
                      let placeholders = join '', '' (map (\<lambda>_. ''?'') columns);
                          query = ''INSERT INTO '' @ table @ '' ('' @ join '', '' columns
                                    @ '') VALUES ('' @ placeholders @ '')'';
                          params = map (\<lambda>col. get_prop data col) columns
                      in (case db query params of
                            Inl e \<Rightarrow> post_failed e [(query, params)]
                          | Inr res \<Rightarrow>
                              (json_response (CreatedBody data (success res)) 201,
                               [(query, params)])))))"

section \<open>rest.ts: handleUpdate\<close>

text \<open>
  \<^verbatim>\<open>
  if ('id' in data) {
      return c.json({ error: 'Cannot update ID field' }, 400);
  }
  const setColumns = Object.keys(data)
      .map(sanitizeIdentifier)
      .map(col => `${col} = ?`)
      .join(', ');
  const query = `UPDATE ${table} SET ${setColumns} WHERE id = ?`;
  const params = [...Object.values(data), id];
  \<close>
\<close>

definition update_failed :: "string \<Rightarrow> call list \<Rightarrow> outcome" where
  "update_failed message calls =
     (json_response (ErrorDetails ''Failed to update record'' message) 400, calls)"

definition handleUpdate ::
  "database \<Rightarrow> string \<Rightarrow> string \<Rightarrow> string + json \<Rightarrow> outcome" where
  "handleUpdate db tableName id' body =
     (case sanitizeKeyword tableName of
        Inl e \<Rightarrow> update_failed e []
      | Inr table \<Rightarrow>
          (case body of
             Inl e \<Rightarrow> update_failed e []
           | Inr data \<Rightarrow>
               if not_an_object data
               then (json_response (ErrorBody ''Invalid data format: Expected object'') 400, [])
               else if length (keys data) = 0
               then (json_response (ErrorBody ''No data provided for update'') 400, [])
               else if has_prop ''id'' data
               then (json_response (ErrorBody ''Cannot update ID field'') 400, [])
               else
                 (case sanitize_each (keys data) of
                    Inl e \<Rightarrow> update_failed e []
                  | Inr columns \<Rightarrow>
                      let setColumns = join '', '' (map (\<lambda>col. col @ '' = ?'') columns);
                          query = ''UPDATE '' @ table @ '' SET '' @ setColumns @ '' WHERE id = ?'';
                          params = map Json (values_of data) @ [Json (JStr id')]
                      in (case db query params of
                            Inl e \<Rightarrow> update_failed e [(query, params)]
                          | Inr res \<Rightarrow>
                              (json_response (UpdatedBody data (success res) (changes res)) 200,
                               [(query, params)])))))"

section \<open>rest.ts: handleDelete\<close>

text \<open>
  \<^verbatim>\<open>
  const query = `DELETE FROM ${table} WHERE id = ?`;
  const result = await c.env.DB.prepare(query).bind(id).run();
  if (result.meta.changes === 0) {
      return c.json({ error: 'Record not found' }, 404);
  }
  return c.json({ message: 'Resource deleted successfully',
                  meta: { changes: result.meta.changes } });
  \<close>
\<close>

definition delete_failed :: "string \<Rightarrow> call list \<Rightarrow> outcome" where
  "delete_failed message calls =
     (json_response (ErrorDetails ''Failed to delete record'' message) 400, calls)"

definition handleDelete :: "database \<Rightarrow> string \<Rightarrow> string \<Rightarrow> outcome" where
  "handleDelete db tableName id' =
     (case sanitizeKeyword tableName of
        Inl e \<Rightarrow> delete_failed e []
      | Inr table \<Rightarrow>
          let query = ''DELETE FROM '' @ table @ '' WHERE id = ?'';
              params = [Json (JStr id')]
          in (case db query params of
                Inl e \<Rightarrow> delete_failed e [(query, params)]
              | Inr res \<Rightarrow>
                  if changes res = 0
                  then (json_response (ErrorBody ''Record not found'') 404, [(query, params)])
                  else (json_response (DeletedBody (changes res)) 200, [(query, params)])))"

section \<open>rest.ts: handleRest\<close>

text \<open>
  What a handler reads of the request: the method, the URL's path and query string (in
  order, as \<^verbatim>\<open>URLSearchParams\<close> lists them), the headers by lower-case name, and the
  JSON body.
\<close>

record request =
  http_method :: string
  pathname :: string
  searchParams :: "(string \<times> string) list"
  header :: "string \<Rightarrow> string option"
  json_body :: "string + json"

text \<open>\<^verbatim>\<open>url.pathname.split('/').filter(Boolean)\<close>.\<close>

definition pathParts :: "string \<Rightarrow> string list" where
  "pathParts path = filter (\<lambda>part. part \<noteq> []) (split_on CHR ''/'' path)"

definition handleRest :: "database \<Rightarrow> request \<Rightarrow> outcome" where
  "handleRest db req =
     (case pathParts (pathname req) of
        prefix # tableName # rest \<Rightarrow>
          let id' = (case rest of [] \<Rightarrow> None | i # _ \<Rightarrow> Some i) in
          if http_method req = ''GET'' then handleGet db tableName id' (searchParams req)
          else if http_method req = ''POST'' then handlePost db tableName (json_body req)
          else if http_method req = ''PUT'' \<or> http_method req = ''PATCH'' then
            (case id' of
               None \<Rightarrow> (json_response (ErrorBody ''ID is required for updates'') 400, [])
             | Some i \<Rightarrow> handleUpdate db tableName i (json_body req))
          else if http_method req = ''DELETE'' then
            (case id' of
               None \<Rightarrow> (json_response (ErrorBody ''ID is required for deletion'') 400, [])
             | Some i \<Rightarrow> handleDelete db tableName i)
          else (json_response (ErrorBody ''Method not allowed'') 405, [])
      | _ \<Rightarrow>
          (json_response
             (ErrorBody ''Invalid path. Expected format: /rest/{tableName}/{id?}'') 400, []))"

section \<open>index.ts: the rate limiter\<close>

text \<open>
  \<^verbatim>\<open>
  const RATE_LIMIT_WINDOW = 60000; // 1 minute
  const MAX_REQUESTS = 100;
  const requestCounts = new Map<string, { count: number; resetTime: number }>();
  \<close>
  Times are \<^verbatim>\<open>Date.now()\<close> milliseconds.
\<close>

definition RATE_LIMIT_WINDOW :: int where
  "RATE_LIMIT_WINDOW = 60000"

definition MAX_REQUESTS :: int where
  "MAX_REQUESTS = 100"

record rate_entry =
  count :: int
  resetTime :: int

type_synonym requestCounts = "string \<Rightarrow> rate_entry option"

text \<open>\<^verbatim>\<open>a || b\<close> on an optional header and a string: the header unless absent or empty.\<close>

definition or_else :: "string option \<Rightarrow> string \<Rightarrow> string" where
  "or_else a b = (case a of None \<Rightarrow> b | Some v \<Rightarrow> if v = [] then b else v)"

text \<open>
  \<^verbatim>\<open>c.req.header('cf-connecting-ip') || c.req.header('x-forwarded-for') || 'unknown'\<close>
\<close>

definition clientIP :: "(string \<Rightarrow> string option) \<Rightarrow> string" where
  "clientIP hdr = or_else (hdr ''cf-connecting-ip'') (or_else (hdr ''x-forwarded-for'') ''unknown'')"

definition too_many_requests :: response where
  "too_many_requests =
     json_response (ErrorBody ''Too many requests. Please try again later.'') 429"

text \<open>
  One request through the middleware: the updated map, and the response when the
  middleware answers itself (\<open>None\<close> when it calls \<^verbatim>\<open>next()\<close>).
  \<^verbatim>\<open>
  const clientData = requestCounts.get(clientIP);
  if (clientData) {
      if (now > clientData.resetTime) {
          requestCounts.set(clientIP, { count: 1, resetTime: now + RATE_LIMIT_WINDOW });
      } else if (clientData.count >= MAX_REQUESTS) {
          return c.json({ error: 'Too many requests. Please try again later.' }, 429);
      } else {
          clientData.count++;
      }
  } else {
      requestCounts.set(clientIP, { count: 1, resetTime: now + RATE_LIMIT_WINDOW });
  }
  return next();
  \<close>
\<close>

definition rateLimit ::
  "int \<Rightarrow> string \<Rightarrow> requestCounts \<Rightarrow> requestCounts \<times> response option" where
  "rateLimit now ip requestCounts =
     (case requestCounts ip of
        Some clientData \<Rightarrow>
          if now > resetTime clientData
          then (requestCounts(ip \<mapsto> \<lparr>count = 1, resetTime = now + RATE_LIMIT_WINDOW\<rparr>), None)
          else if count clientData \<ge> MAX_REQUESTS
          then (requestCounts, Some too_many_requests)
          else (requestCounts(ip \<mapsto> clientData\<lparr>count := count clientData + 1\<rparr>), None)
      | None \<Rightarrow>
          (requestCounts(ip \<mapsto> \<lparr>count = 1, resetTime = now + RATE_LIMIT_WINDOW\<rparr>), None))"

text \<open>Successive requests of one client, at the given arrival times.\<close>

fun arrivals ::
  "string \<Rightarrow> int list \<Rightarrow> requestCounts \<Rightarrow> requestCounts \<times> response option list" where
  "arrivals ip [] requestCounts = (requestCounts, [])"
| "arrivals ip (now # later) requestCounts =
     (case rateLimit now ip requestCounts of
        (counts', r) \<Rightarrow>
          (case arrivals ip later counts' of
             (counts'', rs) \<Rightarrow> (counts'', r # rs)))"

section \<open>index.ts: the authentication middleware\<close>

text \<open>
  \<^verbatim>\<open>
  const authHeader = c.req.header('Authorization');
  if (!authHeader) {
      c.header('WWW-Authenticate', 'Bearer realm="API"');
      return c.json({ error: 'Unauthorized: Missing authentication token' }, 401);
  }
  const token = authHeader.startsWith('Bearer ')
      ? authHeader.substring(7)
      : authHeader;
  // Constant-time comparison to prevent timing attacks
  if (token.length !== secret.length || token !== secret) {
      c.header('WWW-Authenticate', 'Bearer realm="API"');
      return c.json({ error: 'Unauthorized: Invalid authentication token' }, 401);
  }
  return next();
  \<close>
\<close>

definition startsWith :: "string \<Rightarrow> string \<Rightarrow> bool" where
  "startsWith p s = (take (length p) s = p)"

definition unauthorized :: "string \<Rightarrow> response" where
  "unauthorized message =
     \<lparr>status = 401,
      headers = [(''WWW-Authenticate'', ''Bearer realm='' @ [CHR 0x22] @ ''API'' @ [CHR 0x22])],
      payload = ErrorBody message\<rparr>"

definition authMiddleware :: "string \<Rightarrow> (string \<Rightarrow> string option) \<Rightarrow> response option" where
  "authMiddleware secret hdr =
     (case hdr ''authorization'' of
        None \<Rightarrow> Some (unauthorized ''Unauthorized: Missing authentication token'')
      | Some authHeader \<Rightarrow>
          if authHeader = []
          then Some (unauthorized ''Unauthorized: Missing authentication token'')
          else
            let token = (if startsWith ''Bearer '' authHeader then drop 7 authHeader
                         else authHeader)
            in if length token \<noteq> length secret \<or> token \<noteq> secret
               then Some (unauthorized ''Unauthorized: Invalid authentication token'')
               else None)"

section \<open>index.ts: the raw query route\<close>

text \<open>
  The four patterns of \<^verbatim>\<open>dangerousPatterns\<close> have the shapes \<^verbatim>\<open>\bw\b\<close> and
  \<^verbatim>\<open>\bw1\s+w2\b\<close> with the flag \<^verbatim>\<open>i\<close>. \<open>ci_prefix\<close> reads a word ignoring case;
  a word boundary after a word holds at the end of the text or before a character outside
  the word class; \<^verbatim>\<open>\s+\<close> reads every space that follows, since the next word starts
  with a letter; \<open>test\<close> tries each start position, where the leading boundary holds
  when the character before is not of the word class.
\<close>

fun ci_prefix :: "string \<Rightarrow> string \<Rightarrow> string option" where
  "ci_prefix [] s = Some s"
| "ci_prefix (p # ps) [] = None"
| "ci_prefix (p # ps) (c # cs) = (if to_upper c = to_upper p then ci_prefix ps cs else None)"

definition at_boundary :: "string \<Rightarrow> bool" where
  "at_boundary rest = (case rest of [] \<Rightarrow> True | c # _ \<Rightarrow> \<not> ident_char c)"

definition one_word :: "string \<Rightarrow> string \<Rightarrow> bool" where
  "one_word w s = (case ci_prefix w s of None \<Rightarrow> False | Some rest \<Rightarrow> at_boundary rest)"

definition two_words :: "string \<Rightarrow> string \<Rightarrow> string \<Rightarrow> bool" where
  "two_words w1 w2 s =
     (case ci_prefix w1 s of
        None \<Rightarrow> False
      | Some rest \<Rightarrow>
          (case rest of
             [] \<Rightarrow> False
           | c # _ \<Rightarrow> is_space c \<and> one_word w2 (dropWhile is_space rest)))"

fun test :: "(string \<Rightarrow> bool) \<Rightarrow> bool \<Rightarrow> string \<Rightarrow> bool" where
  "test pattern after_word [] = False"
| "test pattern after_word (c # cs) =
     ((\<not> after_word \<and> pattern (c # cs)) \<or> test pattern (ident_char c) cs)"

text \<open>\<^verbatim>\<open>dangerousPatterns.some(pattern => pattern.test(query))\<close>\<close>

definition dangerous :: "string \<Rightarrow> bool" where
  "dangerous query =
     (test (two_words ''drop'' ''table'') False query
      \<or> test (two_words ''drop'' ''database'') False query
      \<or> test (one_word ''truncate'') False query
      \<or> test (two_words ''alter'' ''table'') False query)"

text \<open>
  \<^verbatim>\<open>
  const trimmedQuery = query.trim().toLowerCase();
  if (trimmedQuery.includes(';') && trimmedQuery.split(';').filter(s => s.trim()).length > 1) {
      return c.json({ error: 'Multiple SQL statements are not allowed' }, 400);
  }
  \<close>
\<close>

definition multiple_statements :: "string \<Rightarrow> bool" where
  "multiple_statements query =
     (let trimmedQuery = toLowerCase (trim query)
      in CHR '';'' \<in> set trimmedQuery
         \<and> length (filter (\<lambda>s. trim s \<noteq> []) (split_on CHR '';'' trimmedQuery)) > 1)"

definition query_failed :: "call list \<Rightarrow> outcome" where
  "query_failed calls =
     (json_response (ErrorBody ''Internal server error processing query'') 500, calls)"

text \<open>
  The handler of \<^verbatim>\<open>app.post('/query', ...)\<close>. Destructuring \<^verbatim>\<open>const { query, params } = body\<close>
  throws on \<^verbatim>\<open>null\<close> and reads own properties otherwise; a thrown error is answered
  with 500.
\<close>

definition handleQuery :: "database \<Rightarrow> string + json \<Rightarrow> outcome" where
  "handleQuery db body =
     (case body of
        Inl e \<Rightarrow> query_failed []
      | Inr b \<Rightarrow>
          if b = JNull then query_failed []
          else
            (case map_of (entries b) ''query'' of
               Some (JStr query) \<Rightarrow>
                 if query = []
                 then (json_response (ErrorBody ''Valid query string is required'') 400, [])
                 else if multiple_statements query
                 then (json_response (ErrorBody ''Multiple SQL statements are not allowed'') 400, [])
                 else if dangerous query
                 then (json_response
                         (ErrorBody ''Query contains potentially dangerous operations'') 403, [])
                 else
                   (case map_of (entries b) ''params'' of
                      None \<Rightarrow>
                        (case db query [] of
                           Inl e \<Rightarrow> query_failed [(query, [])]
                         | Inr res \<Rightarrow> (json_response (ResultBody res) 200, [(query, [])]))
                    | Some (JArr params) \<Rightarrow>
                        (case db query (map Json params) of
                           Inl e \<Rightarrow> query_failed [(query, map Json params)]
                         | Inr res \<Rightarrow>
                             (json_response (ResultBody res) 200, [(query, map Json params)]))
                    | Some _ \<Rightarrow>
                        (json_response (ErrorBody ''Parameters must be an array'') 400, []))
             | _ \<Rightarrow> (json_response (ErrorBody ''Valid query string is required'') 400, [])))"

section \<open>index.ts: the middleware chain\<close>

text \<open>
  \<^verbatim>\<open>fetch\<close> registers, in this order, the framework's \<^verbatim>\<open>secureHeaders\<close> and \<^verbatim>\<open>cors\<close>
  middleware, the rate limiter, and the two routes, each with \<^verbatim>\<open>authMiddleware\<close> before
  its handler; a request passes through them in that order.
  \<^verbatim>\<open>
  app.use('*', async (c, next) => {
      return cors({
          origin: '*',
          allowMethods: ['GET', 'POST', 'PUT', 'PATCH', 'DELETE', 'OPTIONS'],
          allowHeaders: ['Content-Type', 'Authorization'],
          maxAge: 86400
      })(c, next);
  });
  \<close>
  The framework's \<^verbatim>\<open>cors\<close> answers a request of method \<^verbatim>\<open>OPTIONS\<close> itself, with status
  204 and no body, and does not call \<^verbatim>\<open>next()\<close>; for every other method it calls
  \<^verbatim>\<open>next()\<close>. \<^verbatim>\<open>secureHeaders\<close> always calls \<^verbatim>\<open>next()\<close>. The headers these two add to
  a response are left out: \<open>headers\<close> holds what index.ts sets with \<^verbatim>\<open>c.header\<close>.
\<close>

definition preflight :: response where
  "preflight = \<lparr>status = 204, headers = [], payload = NoBody\<rparr>"

definition cors :: "request \<Rightarrow> response option" where
  "cors req = (if http_method req = ''OPTIONS'' then Some preflight else None)"

text \<open>
  The route is the one the framework's router selects for the request:
  \<^verbatim>\<open>app.all('/rest/*', ...)\<close>, \<^verbatim>\<open>app.post('/query', ...)\<close>, or none, which the framework
  answers 404. The secret is what \<^verbatim>\<open>await env.SECRET.get()\<close> gave before the request
  entered the chain.
\<close>

datatype route = RestRoute | QueryRoute | NoRoute

definition not_found :: response where
  "not_found = \<lparr>status = 404, headers = [], payload = TextBody ''404 Not Found''\<rparr>"

definition fetch ::
  "string \<Rightarrow> database \<Rightarrow> int \<Rightarrow> route \<Rightarrow> request \<Rightarrow> requestCounts
     \<Rightarrow> outcome \<times> requestCounts" where
  "fetch secret db now route req requestCounts =
     (case cors req of
        Some resp \<Rightarrow> ((resp, []), requestCounts)
      | None \<Rightarrow>
          (case rateLimit now (clientIP (header req)) requestCounts of
             (counts', Some resp) \<Rightarrow> ((resp, []), counts')
           | (counts', None) \<Rightarrow>
               (case route of
                  NoRoute \<Rightarrow> ((not_found, []), counts')
                | RestRoute \<Rightarrow>
                    (case authMiddleware secret (header req) of
                       Some resp \<Rightarrow> ((resp, []), counts')
                     | None \<Rightarrow> (handleRest db req, counts'))
                | QueryRoute \<Rightarrow>
                    (case authMiddleware secret (header req) of
                       Some resp \<Rightarrow> ((resp, []), counts')
                     | None \<Rightarrow> (handleQuery db (json_body req), counts')))))"

section \<open>The statements the specification describes\<close>

text \<open>
  Section 4.2 of the specification, written out: which query-string entries are filters,
  the clauses of a read, and the statement of a delete. The handlers are compared with
  these below.
\<close>

definition filter_params :: "(string \<times> string) list \<Rightarrow> (string \<times> string) list" where
  "filter_params sp = filter (\<lambda>(k, v). k \<notin> set reserved) sp"

definition where_clause :: "string list \<Rightarrow> string" where
  "where_clause cols =
     (if cols = [] then [] else '' WHERE '' @ join '' AND '' (map (\<lambda>c. c @ '' = ?'') cols))"

definition order_clause :: "(string \<times> bool) option \<Rightarrow> string" where
  "order_clause sortBy =
     (case sortBy of
        None \<Rightarrow> []
      | Some (s, desc) \<Rightarrow> '' ORDER BY '' @ s @ (if desc then '' DESC'' else '' ASC''))"

definition page_clause :: "bool \<Rightarrow> bool \<Rightarrow> string" where
  "page_clause lim off =
     (if lim then '' LIMIT ?'' @ (if off then '' OFFSET ?'' else []) else [])"

definition select_sql ::
  "string \<Rightarrow> string list \<Rightarrow> (string \<times> bool) option \<Rightarrow> bool \<Rightarrow> bool \<Rightarrow> string" where
  "select_sql t cols sortBy lim off =
     ''SELECT * FROM '' @ ''`'' @ t @ ''`'' @ where_clause cols @ order_clause sortBy
     @ page_clause lim off"

definition sort_of :: "(string \<times> string) list \<Rightarrow> (string \<times> bool) option" where
  "sort_of sp =
     (case map_of sp ''sort_by'' of
        None \<Rightarrow> None
      | Some s \<Rightarrow>
          if s = [] then None
          else Some (filter ident_char s,
                     (case map_of sp ''order'' of
                        None \<Rightarrow> False
                      | Some v \<Rightarrow> toUpperCase v = ''DESC'')))"

definition page_params :: "(string \<times> string) list \<Rightarrow> jsvalue list" where
  "page_params sp =
     (case map_of sp ''limit'' of
        None \<Rightarrow> []
      | Some l \<Rightarrow>
          if l = [] then []
          else ParseInt l #
               (case map_of sp ''offset'' of
                  None \<Rightarrow> []
                | Some off \<Rightarrow> if off = [] then [] else [ParseInt off]))"

definition delete_sql :: "string \<Rightarrow> string" where
  "delete_sql t = ''DELETE FROM '' @ ''`'' @ t @ ''`'' @ '' WHERE id = ?''"

definition insert_sql :: "string \<Rightarrow> string list \<Rightarrow> string" where
  "insert_sql t cols =
     ''INSERT INTO '' @ ''`'' @ t @ ''`'' @ '' ('' @ join '', '' cols @ '') VALUES (''
     @ join '', '' (map (\<lambda>c. ''?'') cols) @ '')''"

definition update_sql :: "string \<Rightarrow> string list \<Rightarrow> string" where
  "update_sql t cols =
     ''UPDATE '' @ ''`'' @ t @ ''`'' @ '' SET '' @ join '', '' (map (\<lambda>c. c @ '' = ?'') cols)
     @ '' WHERE id = ?''"

text \<open>
  The literal text of the handlers' statement templates, between the places where a name
  is interpolated (the condition \<^verbatim>\<open>id = ?\<close> is \<open>''id''\<close> followed by \<open>'' = ?''\<close>).
\<close>

definition sql_fragments :: "string list" where
  "sql_fragments =
     [''SELECT * FROM '', ''`'', '' WHERE '', ''id'', '' = ?'', '' AND '', '' ORDER BY '',
      '' ASC'', '' DESC'', '' LIMIT ?'', '' OFFSET ?'',
      ''INSERT INTO '', '' ('', '', '', '') VALUES ('', ''?'', '')'',
      ''UPDATE '', '' SET '', '' WHERE id = ?'', ''DELETE FROM '']"

text \<open>A text put together from template fragments and the given identifiers only.\<close>

definition assembled :: "string set \<Rightarrow> string \<Rightarrow> bool" where
  "assembled idents q =
     (\<exists>parts. q = concat parts \<and> (\<forall>part \<in> set parts. part \<in> set sql_fragments \<or> part \<in> idents))"

text \<open>The outputs of the sanitizer on the given raw names.\<close>

definition sanitized_of :: "string set \<Rightarrow> string set" where
  "sanitized_of raws = {s. \<exists>raw \<in> raws. sanitizeIdentifier raw = Inr s}"

text \<open>The keys of a request body, the raw column names of a create or an update.\<close>

definition body_keys :: "string + json \<Rightarrow> string set" where
  "body_keys body = (case body of Inl e \<Rightarrow> {} | Inr data \<Rightarrow> set (keys data))"

text \<open>
  The values of a request: the path id and the query-string values, as strings or through
  \<^verbatim>\<open>parseInt\<close>, and the values of the body.
\<close>

definition request_values :: "string option \<Rightarrow> (string \<times> string) list \<Rightarrow> jsvalue set" where
  "request_values id' sp =
     (\<lambda>v. Json (JStr v)) ` (set_option id' \<union> snd ` set sp) \<union> ParseInt ` snd ` set sp"

definition body_values :: "string + json \<Rightarrow> jsvalue set" where
  "body_values body = (case body of Inl e \<Rightarrow> {} | Inr data \<Rightarrow> Json ` set (values_of data))"

section \<open>Collaborators and requests of the examples\<close>

definition db_ok :: database where
  "db_ok query params = Inr \<lparr>success = True, changes = 1, results = []\<rparr>"

definition db_none_affected :: database where
  "db_none_affected query params = Inr \<lparr>success = True, changes = 0, results = []\<rparr>"

definition patch_invalid_table :: request where
  "patch_invalid_table =
     \<lparr>http_method = ''PATCH'', pathname = ''/rest/1users/5'', searchParams = [],
      header = Map.empty, json_body = Inr (JObj [(''id'', JNum 9)])\<rparr>"





section \<open>Evaluation and the sanitizer's outputs\<close>

lemmas char_class_defs = ident_char_def is_lower_def is_upper_def is_digit_def

lemma sanitizeKeyword_Inr:
  "sanitizeIdentifier n = Inr t \<Longrightarrow> sanitizeKeyword n = Inr (''`'' @ t @ ''`'')"
  by (simp add: sanitizeKeyword_def)

lemma sanitizeKeyword_Inl:
  "sanitizeIdentifier n = Inl e \<Longrightarrow> sanitizeKeyword n = Inl e"
  by (simp add: sanitizeKeyword_def)

lemma sanitizeKeyword_cases:
  "(\<exists>e. sanitizeIdentifier n = Inl e \<and> sanitizeKeyword n = Inl e) \<or>
   (\<exists>t. sanitizeIdentifier n = Inr t \<and> sanitizeKeyword n = Inr (''`'' @ t @ ''`''))"
  by (cases "sanitizeIdentifier n") (simp_all add: sanitizeKeyword_def)

lemmas eval_defs =
  sanitizeIdentifier_def sanitizeKeyword_def starts_with_digit_def char_class_defs
  reserved_def truthy_def json_response_def pathParts_def

lemma not_isl_sanitize:
  "\<not> isl (sanitizeIdentifier k) \<Longrightarrow> sanitizeIdentifier k = Inr (filter ident_char k)"
  by (cases "sanitizeIdentifier k") (auto simp: sanitizeIdentifier_def Let_def split: if_splits)

lemma sanitize_each_Inr:
  "(\<forall>k \<in> set ks. \<not> isl (sanitizeIdentifier k)) \<Longrightarrow>
   sanitize_each ks = Inr (map (filter ident_char) ks)"
proof (induction ks)
  case Nil
  then show ?case by simp
next
  case (Cons k ks)
  then have "sanitizeIdentifier k = Inr (filter ident_char k)"
    by (cases "sanitizeIdentifier k") (auto simp: sanitizeIdentifier_def Let_def split: if_splits)
  with Cons show ?case by simp
qed

section \<open>Properties of the sanitizer\<close>

lemma sanitizeIdentifier_Inr_iff:
  "sanitizeIdentifier raw = Inr s \<longleftrightarrow>
     s = filter ident_char raw \<and> s \<noteq> [] \<and> \<not> starts_with_digit s"
  by (auto simp: sanitizeIdentifier_def Let_def)

text \<open>
  C6. The sanitizer fails exactly when the input is empty, or nothing is left after
  every character outside \<^verbatim>\<open>[A-Za-z0-9_]\<close> is stripped, or what is left starts with a
  digit; in every other case it returns the stripped string.
\<close>

theorem sanitizeIdentifier_fails_iff:
  "(isl (sanitizeIdentifier raw) \<longleftrightarrow>
      raw = [] \<or> filter ident_char raw = [] \<or> is_digit (hd (filter ident_char raw)))
   \<and> (\<not> isl (sanitizeIdentifier raw) \<longrightarrow>
        sanitizeIdentifier raw = Inr (filter ident_char raw))"
  by (cases "filter ident_char raw")
     (auto simp: sanitizeIdentifier_def Let_def starts_with_digit_def)

theorem sanitizeIdentifier_fails_iff_witness:
  "\<not> isl (sanitizeIdentifier ''user-name; --'')
   \<and> sanitizeIdentifier ''user-name; --'' = Inr ''username''
   \<and> isl (sanitizeIdentifier ''9 lives'')
   \<and> isl (sanitizeIdentifier ''; --'')
   \<and> isl (sanitizeIdentifier [])"
  using sanitizeIdentifier_fails_iff [of "''user-name; --''"]
    sanitizeIdentifier_fails_iff [of "''9 lives''"]
    sanitizeIdentifier_fails_iff [of "''; --''"]
    sanitizeIdentifier_fails_iff [of "[]"]
  by (simp add: ident_char_def is_lower_def is_upper_def is_digit_def)

section \<open>Reads\<close>

lemma search_loop_Inr:
  "sanitize_each (map fst (filter_params sp)) = Inr cols \<Longrightarrow>
   search_loop sp conds ps =
     Inr (conds @ map (\<lambda>c. c @ '' = ?'') cols,
          ps @ map (\<lambda>(k, v). Json (JStr v)) (filter_params sp))"
proof (induction sp arbitrary: conds ps cols)
  case Nil
  then show ?case by (simp add: filter_params_def)
next
  case (Cons kv sp)
  obtain k v where kv: "kv = (k, v)" by (cases kv)
  show ?case
  proof (cases "k \<in> set reserved")
    case True
    with Cons kv show ?thesis by (simp add: filter_params_def)
  next
    case False
    with Cons.prems kv obtain c cs where
      c: "sanitizeIdentifier k = Inr c" and cs: "sanitize_each (map fst (filter_params sp)) = Inr cs"
      and cols: "cols = c # cs"
      by (auto simp: filter_params_def split: sum.splits)
    from Cons.IH [OF cs] False kv c cols show ?thesis
      by (simp add: filter_params_def)
  qed
qed

lemma add_sort_eq:
  assumes "\<forall>s. map_of sp ''sort_by'' = Some s \<and> s \<noteq> [] \<longrightarrow> \<not> isl (sanitizeIdentifier s)"
  shows "add_sort sp q = Inr (q @ order_clause (sort_of sp))"
proof (cases "map_of sp ''sort_by''")
  case None
  then show ?thesis by (simp add: add_sort_def sort_of_def order_clause_def)
next
  case (Some s)
  show ?thesis
  proof (cases "s = []")
    case True
    with Some show ?thesis by (simp add: add_sort_def sort_of_def order_clause_def)
  next
    case False
    with Some assms have "sanitizeIdentifier s = Inr (filter ident_char s)"
      by (simp add: not_isl_sanitize)
    with Some False show ?thesis
      by (simp add: add_sort_def sort_of_def order_clause_def sort_order_def split: option.splits)
  qed
qed

lemma add_page_eq:
  "add_page sp (q, ps) =
     (q @ page_clause (truthy (map_of sp ''limit'')) (truthy (map_of sp ''offset'')),
      ps @ page_params sp)"
  by (simp add: add_page_def page_clause_def page_params_def truthy_def split: option.splits)

lemma handleGet_emits:
  assumes table: "\<not> isl (sanitizeIdentifier tableName)"
      and cols: "\<forall>k \<in> set (map fst (filter_params sp)). \<not> isl (sanitizeIdentifier k)"
      and sort: "\<forall>s. map_of sp ''sort_by'' = Some s \<and> s \<noteq> [] \<longrightarrow> \<not> isl (sanitizeIdentifier s)"
  shows "snd (handleGet db tableName id' sp) =
     [(select_sql (filter ident_char tableName)
         ((if truthy id' then [''id''] else []) @ map (filter ident_char \<circ> fst) (filter_params sp))
         (sort_of sp) (truthy (map_of sp ''limit'')) (truthy (map_of sp ''offset'')),
       (case id' of None \<Rightarrow> [] | Some i \<Rightarrow> if i = [] then [] else [Json (JStr i)])
       @ map (\<lambda>(k, v). Json (JStr v)) (filter_params sp)
       @ page_params sp)]"
proof -
  let ?cols = "map (filter ident_char \<circ> fst) (filter_params sp)"
  have t: "sanitizeKeyword tableName = Inr (''`'' @ filter ident_char tableName @ ''`'')"
    using table by (simp add: sanitizeKeyword_Inr not_isl_sanitize)
  have loop: "\<And>conds ps. search_loop sp conds ps =
     Inr (conds @ map (\<lambda>c. c @ '' = ?'') ?cols,
          ps @ map (\<lambda>(k, v). Json (JStr v)) (filter_params sp))"
    using search_loop_Inr [OF sanitize_each_Inr [OF cols]] by simp
  have w: "(if length ((if truthy id' then [''id = ?''] else []) @ map (\<lambda>c. c @ '' = ?'') ?cols) > 0
            then ''SELECT * FROM '' @ (''`'' @ filter ident_char tableName @ ''`'') @ '' WHERE ''
                 @ join '' AND '' ((if truthy id' then [''id = ?''] else []) @ map (\<lambda>c. c @ '' = ?'') ?cols)
            else ''SELECT * FROM '' @ (''`'' @ filter ident_char tableName @ ''`''))
      = ''SELECT * FROM `'' @ filter ident_char tableName @ ''`''
        @ where_clause ((if truthy id' then [''id''] else []) @ ?cols)"
    by (simp add: where_clause_def)
  show ?thesis
    unfolding handleGet_def t sum.case loop prod.case w add_sort_eq [OF sort] add_page_eq
    by (simp add: select_sql_def get_failed_def split: sum.splits)
qed


lemma users_get_example:
  "snd (handleRest db \<lparr>http_method = ''GET'', pathname = ''/rest/users'',
          searchParams = [(''age'', ''25''), (''sort_by'', ''name''), (''order'', ''desc'')],
          header = h, json_body = b\<rparr>)
     = [(''SELECT * FROM `users` WHERE age = ? ORDER BY name DESC'', [Json (JStr ''25'')])]"
  by (simp add: handleRest_def handleGet_def add_sort_def add_page_def sort_order_def
        toUpperCase_def to_upper_def get_failed_def eval_defs split: sum.splits)

text \<open>
  C7. \<^verbatim>\<open>GET /rest/users?age=25&sort_by=name&order=desc\<close> sends exactly
  \<^verbatim>\<open>SELECT * FROM `users` WHERE age = ? ORDER BY name DESC\<close> bound to \<^verbatim>\<open>["25"]\<close>. In
  general, when the table name, the filter keys and the sort key pass the sanitizer, a read
  sends one statement: the reserved keys \<^verbatim>\<open>sort_by\<close>, \<^verbatim>\<open>order\<close>, \<^verbatim>\<open>limit\<close> and
  \<^verbatim>\<open>offset\<close> contribute no filter, every other key contributes the condition
  \<^verbatim>\<open><sanitized key> = ?\<close> in order, joined with \<^verbatim>\<open>AND\<close>, with its value bound, and
  the sort is descending exactly when the value of \<^verbatim>\<open>order\<close> in upper case is
  \<^verbatim>\<open>DESC\<close>.
\<close>

theorem handleGet_filter_sort:
  "snd (handleRest db \<lparr>http_method = ''GET'', pathname = ''/rest/users'',
          searchParams = [(''age'', ''25''), (''sort_by'', ''name''), (''order'', ''desc'')],
          header = h, json_body = b\<rparr>)
     = [(''SELECT * FROM `users` WHERE age = ? ORDER BY name DESC'', [Json (JStr ''25'')])]
   \<and> (\<not> isl (sanitizeIdentifier tableName)
        \<and> (\<forall>k \<in> set (map fst (filter_params sp)). \<not> isl (sanitizeIdentifier k))
        \<and> (\<forall>s. map_of sp ''sort_by'' = Some s \<and> s \<noteq> [] \<longrightarrow> \<not> isl (sanitizeIdentifier s))
      \<longrightarrow> snd (handleGet db tableName id' sp) =
           [(select_sql (filter ident_char tableName)
               ((if truthy id' then [''id''] else [])
                @ map (filter ident_char \<circ> fst) (filter_params sp))
               (sort_of sp) (truthy (map_of sp ''limit'')) (truthy (map_of sp ''offset'')),
             (case id' of None \<Rightarrow> [] | Some i \<Rightarrow> if i = [] then [] else [Json (JStr i)])
             @ map (\<lambda>(k, v). Json (JStr v)) (filter_params sp)
             @ page_params sp)])"
  using users_get_example handleGet_emits by blast

theorem handleGet_filter_sort_witness:
  "snd (handleGet db_ok ''users'' (Some ''7'')
          [(''limit'', ''10''), (''na me'', ''Al''), (''sort_by'', ''age''),
           (''order'', ''DeSc''), (''offset'', ''20'')])
     = [(''SELECT * FROM `users` WHERE id = ? AND name = ? ORDER BY age DESC LIMIT ? OFFSET ?'',
         [Json (JStr ''7''), Json (JStr ''Al''), ParseInt ''10'', ParseInt ''20''])]"
  using handleGet_filter_sort [of db_ok h b "''users''"
          "[(''limit'', ''10''), (''na me'', ''Al''), (''sort_by'', ''age''),
            (''order'', ''DeSc''), (''offset'', ''20'')]" "Some ''7''"]
  by (simp add: filter_params_def select_sql_def where_clause_def order_clause_def
        page_clause_def page_params_def sort_of_def toUpperCase_def to_upper_def eval_defs)

section \<open>Deletes\<close>

text \<open>
  C9. A delete answers 404 exactly when the collaborator was asked and reported zero
  affected rows; when it reported a count that is not zero, the answer is the success
  message with that count.
\<close>

theorem handleDelete_not_found_iff:
  "(status (fst (handleDelete db tableName id')) = 404 \<longleftrightarrow>
      (\<exists>t r. sanitizeIdentifier tableName = Inr t
         \<and> db (delete_sql t) [Json (JStr id')] = Inr r \<and> changes r = 0))
   \<and> (\<forall>t r. sanitizeIdentifier tableName = Inr t
         \<and> db (delete_sql t) [Json (JStr id')] = Inr r \<and> changes r \<noteq> 0
         \<longrightarrow> fst (handleDelete db tableName id') = json_response (DeletedBody (changes r)) 200)"
  using sanitizeKeyword_cases [of tableName]
  by (auto simp: handleDelete_def delete_sql_def delete_failed_def json_response_def Let_def
           split: sum.splits)

theorem handleDelete_not_found_iff_witness:
  "status (fst (handleDelete db_none_affected ''users'' ''42'')) = 404
   \<and> fst (handleDelete db_ok ''users'' ''42'') = json_response (DeletedBody 1) 200"
proof -
  have t: "sanitizeIdentifier ''users'' = Inr ''users''"
    by (simp add: sanitizeIdentifier_def starts_with_digit_def char_class_defs)
  have "status (fst (handleDelete db_none_affected ''users'' ''42'')) = 404"
    using handleDelete_not_found_iff [of db_none_affected "''users''" "''42''"] t
    by (simp add: db_none_affected_def)
  moreover have "fst (handleDelete db_ok ''users'' ''42'') = json_response (DeletedBody 1) 200"
    using handleDelete_not_found_iff [of db_ok "''users''" "''42''"] t
    by (simp add: db_ok_def)
  ultimately show ?thesis by simp
qed

section \<open>Updates\<close>

lemma handleUpdate_id_forbidden:
  assumes "''id'' \<in> fst ` set kvs"
  shows "snd (handleUpdate db tableName id' (Inr (JObj kvs))) = []
     \<and> status (fst (handleUpdate db tableName id' (Inr (JObj kvs)))) = 400
     \<and> (\<forall>t. sanitizeIdentifier tableName = Inr t \<longrightarrow>
          fst (handleUpdate db tableName id' (Inr (JObj kvs)))
            = json_response (ErrorBody ''Cannot update ID field'') 400)"
proof -
  have has: "has_prop ''id'' (JObj kvs)"
    using assms by (simp add: has_prop_def keys_def)
  have nonempty: "length (keys (JObj kvs)) \<noteq> 0"
    using assms by (auto simp: keys_def)
  have obj: "\<not> not_an_object (JObj kvs)"
    by (simp add: not_an_object_def)
  show ?thesis
  proof (cases "sanitizeIdentifier tableName")
    case (Inl e)
    then show ?thesis
      by (simp add: handleUpdate_def sanitizeKeyword_Inl update_failed_def json_response_def)
  next
    case (Inr t)
    then show ?thesis
      using has nonempty obj
      by (simp add: handleUpdate_def sanitizeKeyword_Inr json_response_def)
  qed
qed

text \<open>
  C8 as the code has it. A PUT or PATCH whose body is an object with an \<^verbatim>\<open>id\<close> key sends
  nothing to the database and is answered 400, whatever else the body holds; the answer is
  \<^verbatim>\<open>Cannot update ID field\<close> whenever the path has an id and the table name passes the
  sanitizer, which is checked first.
\<close>

theorem update_with_id_rejected:
  assumes "http_method req = ''PUT'' \<or> http_method req = ''PATCH''"
      and "json_body req = Inr (JObj kvs)"
      and "''id'' \<in> fst ` set kvs"
  shows "snd (handleRest db req) = []
     \<and> status (fst (handleRest db req)) = 400
     \<and> (\<forall>prefix tableName i rest t.
          pathParts (pathname req) = prefix # tableName # i # rest
          \<and> sanitizeIdentifier tableName = Inr t
          \<longrightarrow> fst (handleRest db req) = json_response (ErrorBody ''Cannot update ID field'') 400)"
proof -
  have verb: "http_method req \<noteq> ''GET''" "http_method req \<noteq> ''POST''"
    using assms(1) by auto
  show ?thesis
  proof (cases "pathParts (pathname req)")
    case Nil
    then show ?thesis by (simp add: handleRest_def json_response_def)
  next
    case (Cons prefix more)
    show ?thesis
    proof (cases more)
      case Nil
      with Cons show ?thesis by (simp add: handleRest_def json_response_def)
    next
      case more: (Cons tableName rest)
      show ?thesis
      proof (cases rest)
        case Nil
        with Cons more verb assms(1) show ?thesis
          by (auto simp: handleRest_def json_response_def)
      next
        case rest: (Cons i rest')
        have "handleRest db req = handleUpdate db tableName i (Inr (JObj kvs))"
          using Cons more rest verb assms(1,2) by (auto simp: handleRest_def)
        with handleUpdate_id_forbidden [OF assms(3), of db tableName i] Cons more rest
        show ?thesis by simp
      qed
    qed
  qed
qed

theorem update_with_id_rejected_witness:
  "handleRest db_ok
     \<lparr>http_method = ''PATCH'', pathname = ''/rest/users/5'', searchParams = [],
      header = Map.empty, json_body = Inr (JObj [(''id'', JNum 9), (''age'', JNum 31)])\<rparr>
     = (json_response (ErrorBody ''Cannot update ID field'') 400, [])"
proof -
  let ?req = "\<lparr>http_method = ''PATCH'', pathname = ''/rest/users/5'', searchParams = [],
      header = Map.empty, json_body = Inr (JObj [(''id'', JNum 9), (''age'', JNum 31)])\<rparr>"
  have t: "sanitizeIdentifier ''users'' = Inr ''users''"
    by (simp add: eval_defs)
  have path: "pathParts (pathname ?req) = [''rest'', ''users'', ''5'']"
    by (simp add: pathParts_def)
  have "snd (handleRest db_ok ?req) = []
     \<and> fst (handleRest db_ok ?req) = json_response (ErrorBody ''Cannot update ID field'') 400"
    using update_with_id_rejected [of ?req "[(''id'', JNum 9), (''age'', JNum 31)]" db_ok] t path
    by simp
  then show ?thesis by (simp add: prod_eq_iff)
qed

text \<open>
  \<^verbatim>\<open>PATCH /rest/1users/5\<close> with body \<^verbatim>\<open>{"id": 9}\<close>: the table name fails the sanitizer,
  and that is what the answer reports, not the \<^verbatim>\<open>id\<close> key.
\<close>

theorem update_invalid_table_counterexample:
  "handleRest db_ok patch_invalid_table
     = (json_response (ErrorDetails ''Failed to update record''
          ''Invalid identifier: must start with letter or underscore'') 400, [])
   \<and> payload (fst (handleRest db_ok patch_invalid_table))
       \<noteq> ErrorBody ''Cannot update ID field''"
  by (simp add: patch_invalid_table_def handleRest_def handleUpdate_def update_failed_def
        eval_defs)

section \<open>Identifiers in the statements\<close>

lemma assembled_Nil: "assembled I []"
  unfolding assembled_def by (rule exI [of _ "[]"]) simp

lemma assembled_frag: "f \<in> set sql_fragments \<Longrightarrow> assembled I f"
  unfolding assembled_def by (rule exI [of _ "[f]"]) simp

lemma assembled_ident: "s \<in> I \<Longrightarrow> assembled I s"
  unfolding assembled_def by (rule exI [of _ "[s]"]) simp

lemma assembled_append:
  assumes "assembled I a" and "assembled I b"
  shows "assembled I (a @ b)"
proof -
  from assms obtain ps qs where
    "a = concat ps" "\<forall>p \<in> set ps. p \<in> set sql_fragments \<or> p \<in> I"
    "b = concat qs" "\<forall>p \<in> set qs. p \<in> set sql_fragments \<or> p \<in> I"
    unfolding assembled_def by blast
  then have "a @ b = concat (ps @ qs) \<and> (\<forall>p \<in> set (ps @ qs). p \<in> set sql_fragments \<or> p \<in> I)"
    by auto
  then show ?thesis unfolding assembled_def by blast
qed

lemma assembled_join:
  "\<forall>x \<in> set xs. assembled I x \<Longrightarrow> assembled I sep \<Longrightarrow> assembled I (join sep xs)"
  by (induction sep xs rule: join.induct) (simp_all add: assembled_Nil assembled_append)

lemma sanitized_ofI: "raw \<in> raws \<Longrightarrow> sanitizeIdentifier raw = Inr s \<Longrightarrow> s \<in> sanitized_of raws"
  unfolding sanitized_of_def by blast

lemma frag_eq: "assembled I '' = ?''" "assembled I ''?''" "assembled I '', ''" "assembled I '' AND ''"
  "assembled I ''id''"
  by (rule assembled_frag, simp add: sql_fragments_def)+

lemma assembled_delete_sql:
  assumes "assembled I t"
  shows "assembled I (delete_sql t)"
  unfolding delete_sql_def
  by (intro assembled_append assms; rule assembled_frag; simp add: sql_fragments_def)

lemma assembled_insert_sql:
  assumes t: "assembled I t" and cols: "\<forall>c \<in> set cols. assembled I c"
  shows "assembled I (insert_sql t cols)"
proof -
  have a: "assembled I (join '', '' cols)"
    using cols by (intro assembled_join frag_eq)
  have b: "assembled I (join '', '' (map (\<lambda>c. ''?'') cols))"
    by (intro assembled_join frag_eq) (simp add: frag_eq)
  show ?thesis
    unfolding insert_sql_def
    by (intro assembled_append t a b; rule assembled_frag; simp add: sql_fragments_def)
qed

lemma assembled_update_sql:
  assumes t: "assembled I t" and cols: "\<forall>c \<in> set cols. assembled I c"
  shows "assembled I (update_sql t cols)"
proof -
  have a: "assembled I (join '', '' (map (\<lambda>c. c @ '' = ?'') cols))"
    using cols by (intro assembled_join frag_eq) (simp add: assembled_append frag_eq)
  show ?thesis
    unfolding update_sql_def
    by (intro assembled_append t a; rule assembled_frag; simp add: sql_fragments_def)
qed

lemma assembled_select_sql:
  assumes t: "assembled I t" and cols: "\<forall>c \<in> set cols. assembled I c"
      and sortBy: "\<forall>s d. sortBy = Some (s, d) \<longrightarrow> assembled I s"
  shows "assembled I (select_sql t cols sortBy lim off)"
proof -
  have d: "assembled I '' DESC''" "assembled I '' ASC''" "assembled I '' ORDER BY ''"
    "assembled I '' LIMIT ?''" "assembled I '' OFFSET ?''" "assembled I '' WHERE ''"
    by (rule assembled_frag, simp add: sql_fragments_def)+
  have w: "assembled I (where_clause cols)"
  proof (cases "cols = []")
    case True
    then show ?thesis by (simp add: where_clause_def assembled_Nil)
  next
    case False
    have "assembled I (join '' AND '' (map (\<lambda>c. c @ '' = ?'') cols))"
      using cols by (intro assembled_join frag_eq) (simp add: assembled_append frag_eq)
    then have "assembled I ('' WHERE '' @ join '' AND '' (map (\<lambda>c. c @ '' = ?'') cols))"
      by (intro assembled_append d)
    with False show ?thesis unfolding where_clause_def by (simp only: if_False)
  qed
  have o: "assembled I (order_clause sortBy)"
  proof (cases sortBy)
    case None
    then show ?thesis by (simp add: order_clause_def assembled_Nil)
  next
    case (Some sd)
    obtain s b where sd: "sd = (s, b)" by (cases sd)
    with Some sortBy have s: "assembled I s" by simp
    have "assembled I ('' ORDER BY '' @ s @ (if b then '' DESC'' else '' ASC''))"
      by (cases b; simp only: if_True if_False; intro assembled_append s d)
    with Some sd show ?thesis
      unfolding order_clause_def by (simp only: option.case prod.case)
  qed
  have p: "assembled I (page_clause lim off)"
    unfolding page_clause_def
    by (cases lim; cases off; simp only: if_True if_False; intro assembled_append assembled_Nil d)
  show ?thesis
    unfolding select_sql_def
    by (intro assembled_append t w o p; rule assembled_frag; simp add: sql_fragments_def)
qed


lemma search_loop_Inr_keys:
  "search_loop sp conds ps = Inr r \<Longrightarrow>
   \<forall>k \<in> set (map fst (filter_params sp)). \<not> isl (sanitizeIdentifier k)"
proof (induction sp arbitrary: conds ps)
  case Nil
  then show ?case by (simp add: filter_params_def)
next
  case (Cons kv sp)
  obtain k v where kv: "kv = (k, v)" by (cases kv)
  show ?case
  proof (cases "k \<in> set reserved")
    case True
    with Cons kv show ?thesis by (simp add: filter_params_def)
  next
    case False
    with Cons.prems kv obtain c where
      c: "sanitizeIdentifier k = Inr c"
      and rest: "search_loop sp (conds @ [c @ '' = ?'']) (ps @ [Json (JStr v)]) = Inr r"
      by (auto split: sum.splits)
    from Cons.IH [OF rest] c False kv show ?thesis
      by (simp add: filter_params_def)
  qed
qed

lemma search_loop_not_Inr:
  assumes "\<exists>k \<in> set (map fst (filter_params sp)). isl (sanitizeIdentifier k)"
  shows "search_loop sp conds ps \<noteq> Inr r"
  using search_loop_Inr_keys [of sp conds ps r] assms by blast

lemma add_sort_not_Inr:
  "map_of sp ''sort_by'' = Some s \<Longrightarrow> s \<noteq> [] \<Longrightarrow> isl (sanitizeIdentifier s) \<Longrightarrow>
   add_sort sp q \<noteq> Inr q'"
  by (cases "sanitizeIdentifier s") (simp_all add: add_sort_def)

lemma handleGet_silent:
  assumes "isl (sanitizeIdentifier tableName)
     \<or> (\<exists>k \<in> set (map fst (filter_params sp)). isl (sanitizeIdentifier k))
     \<or> (\<exists>s. map_of sp ''sort_by'' = Some s \<and> s \<noteq> [] \<and> isl (sanitizeIdentifier s))"
  shows "snd (handleGet db tableName id' sp) = []"
proof (cases "sanitizeIdentifier tableName")
  case (Inl e)
  then show ?thesis by (simp add: handleGet_def sanitizeKeyword_Inl get_failed_def)
next
  case (Inr t)
  note table = sanitizeKeyword_Inr [OF Inr]
  show ?thesis
  proof (cases "\<exists>k \<in> set (map fst (filter_params sp)). isl (sanitizeIdentifier k)")
    case True
    have "\<forall>conds ps r. search_loop sp conds ps \<noteq> Inr r"
      using search_loop_not_Inr [OF True] by simp
    then show ?thesis
      unfolding handleGet_def table
      by (simp add: get_failed_def split: sum.splits prod.splits)
  next
    case False
    with assms Inr obtain s where
      s: "map_of sp ''sort_by'' = Some s" "s \<noteq> []" "isl (sanitizeIdentifier s)"
      by auto
    have "\<forall>q q'. add_sort sp q \<noteq> Inr q'"
      using add_sort_not_Inr [OF s] by simp
    then show ?thesis
      unfolding handleGet_def table
      by (simp add: get_failed_def split: sum.splits prod.splits)
  qed
qed

lemma handleGet_assembled:
  assumes "(q, ps) \<in> set (snd (handleGet db tableName id' sp))"
  shows "assembled (sanitized_of ({tableName} \<union> fst ` set sp \<union> {v. (''sort_by'', v) \<in> set sp})) q"
proof -
  let ?I = "sanitized_of ({tableName} \<union> fst ` set sp \<union> {v. (''sort_by'', v) \<in> set sp})"
  from assms have "snd (handleGet db tableName id' sp) \<noteq> []" by auto
  with handleGet_silent [of tableName sp db id'] have
    table: "\<not> isl (sanitizeIdentifier tableName)" and
    cols: "\<forall>k \<in> set (map fst (filter_params sp)). \<not> isl (sanitizeIdentifier k)" and
    sortBy: "\<forall>s. map_of sp ''sort_by'' = Some s \<and> s \<noteq> [] \<longrightarrow> \<not> isl (sanitizeIdentifier s)"
    by blast+
  from assms handleGet_emits [OF table cols sortBy, of db id'] have q:
    "q = select_sql (filter ident_char tableName)
           ((if truthy id' then [''id''] else []) @ map (filter ident_char \<circ> fst) (filter_params sp))
           (sort_of sp) (truthy (map_of sp ''limit'')) (truthy (map_of sp ''offset''))"
    by simp
  have t: "assembled ?I (filter ident_char tableName)"
    using table by (intro assembled_ident sanitized_ofI [of tableName] not_isl_sanitize) simp
  have c: "\<forall>c \<in> set ((if truthy id' then [''id''] else [])
                     @ map (filter ident_char \<circ> fst) (filter_params sp)). assembled ?I c"
  proof
    fix c
    assume "c \<in> set ((if truthy id' then [''id''] else [])
                     @ map (filter ident_char \<circ> fst) (filter_params sp))"
    then consider "c = ''id''" | k where "k \<in> set (map fst (filter_params sp))" "c = filter ident_char k"
      by (auto split: if_splits)
    then show "assembled ?I c"
    proof cases
      case 1
      then show ?thesis by (simp add: frag_eq)
    next
      case 2
      then have "k \<in> fst ` set sp" by (auto simp: filter_params_def)
      moreover have "sanitizeIdentifier k = Inr c"
        using 2 cols by (auto intro!: not_isl_sanitize)
      ultimately show ?thesis
        by (intro assembled_ident sanitized_ofI [of k]) auto
    qed
  qed
  have s: "\<forall>s d. sort_of sp = Some (s, d) \<longrightarrow> assembled ?I s"
  proof (intro allI impI)
    fix s d
    assume "sort_of sp = Some (s, d)"
    then obtain raw where raw: "map_of sp ''sort_by'' = Some raw" "raw \<noteq> []" "s = filter ident_char raw"
      by (auto simp: sort_of_def split: option.splits if_splits)
    then have "(''sort_by'', raw) \<in> set sp" by (simp add: map_of_SomeD)
    moreover have "sanitizeIdentifier raw = Inr s"
      using raw sortBy by (simp add: not_isl_sanitize)
    ultimately show "assembled ?I s"
      by (intro assembled_ident sanitized_ofI [of raw]) auto
  qed
  show ?thesis
    unfolding q by (rule assembled_select_sql [OF t c s])
qed

lemma sanitize_each_sanitized:
  "sanitize_each ks = Inr cols \<Longrightarrow> set cols \<subseteq> sanitized_of (set ks)"
proof (induction ks arbitrary: cols)
  case Nil
  then show ?case by simp
next
  case (Cons k ks)
  then obtain c cs where c: "sanitizeIdentifier k = Inr c" and cs: "sanitize_each ks = Inr cs"
    and cols: "cols = c # cs"
    by (auto split: sum.splits)
  from Cons.IH [OF cs] have "set cs \<subseteq> sanitized_of (set (k # ks))"
    by (auto simp: sanitized_of_def)
  moreover have "c \<in> sanitized_of (set (k # ks))"
    using c by (auto simp: sanitized_of_def)
  ultimately show ?case using cols by simp
qed

lemma handlePost_calls:
  assumes "(q, ps) \<in> set (snd (handlePost db tableName body))"
  shows "\<exists>t data cols. sanitizeIdentifier tableName = Inr t \<and> body = Inr data
           \<and> sanitize_each (keys data) = Inr cols
           \<and> q = insert_sql t cols \<and> ps = map (get_prop data) cols"
  using assms sanitizeKeyword_cases [of tableName]
  by (auto simp: handlePost_def post_failed_def insert_sql_def Let_def
           split: sum.splits if_splits)

lemma handleUpdate_calls:
  assumes "(q, ps) \<in> set (snd (handleUpdate db tableName i body))"
  shows "\<exists>t data cols. sanitizeIdentifier tableName = Inr t \<and> body = Inr data
           \<and> sanitize_each (keys data) = Inr cols
           \<and> q = update_sql t cols \<and> ps = map Json (values_of data) @ [Json (JStr i)]"
  using assms sanitizeKeyword_cases [of tableName]
  by (auto simp: handleUpdate_def update_failed_def update_sql_def Let_def
           split: sum.splits if_splits)

lemma handleDelete_calls:
  assumes "(q, ps) \<in> set (snd (handleDelete db tableName i))"
  shows "\<exists>t. sanitizeIdentifier tableName = Inr t \<and> q = delete_sql t \<and> ps = [Json (JStr i)]"
  using assms sanitizeKeyword_cases [of tableName]
  by (auto simp: handleDelete_def delete_failed_def delete_sql_def Let_def
           split: sum.splits if_splits)

lemma sanitized_of_mono: "A \<subseteq> B \<Longrightarrow> sanitized_of A \<subseteq> sanitized_of B"
  by (auto simp: sanitized_of_def)

lemma handlePost_assembled:
  assumes "(q, ps) \<in> set (snd (handlePost db tableName body))"
  shows "assembled (sanitized_of ({tableName} \<union> body_keys body)) q"
proof -
  from handlePost_calls [OF assms] obtain t data cols where
    t: "sanitizeIdentifier tableName = Inr t" and body: "body = Inr data"
    and cols: "sanitize_each (keys data) = Inr cols" and q: "q = insert_sql t cols"
    by blast
  have "set cols \<subseteq> sanitized_of ({tableName} \<union> body_keys body)"
    using sanitize_each_sanitized [OF cols] body
    by (auto simp: body_keys_def sanitized_of_def)
  moreover have "t \<in> sanitized_of ({tableName} \<union> body_keys body)"
    using t by (intro sanitized_ofI [of tableName]) auto
  ultimately show ?thesis
    unfolding q by (intro assembled_insert_sql ballI assembled_ident) auto
qed

lemma handleUpdate_assembled:
  assumes "(q, ps) \<in> set (snd (handleUpdate db tableName i body))"
  shows "assembled (sanitized_of ({tableName} \<union> body_keys body)) q"
proof -
  from handleUpdate_calls [OF assms] obtain t data cols where
    t: "sanitizeIdentifier tableName = Inr t" and body: "body = Inr data"
    and cols: "sanitize_each (keys data) = Inr cols" and q: "q = update_sql t cols"
    by blast
  have "set cols \<subseteq> sanitized_of ({tableName} \<union> body_keys body)"
    using sanitize_each_sanitized [OF cols] body
    by (auto simp: body_keys_def sanitized_of_def)
  moreover have "t \<in> sanitized_of ({tableName} \<union> body_keys body)"
    using t by (intro sanitized_ofI [of tableName]) auto
  ultimately show ?thesis
    unfolding q by (intro assembled_update_sql ballI assembled_ident) auto
qed

lemma handleDelete_assembled:
  assumes "(q, ps) \<in> set (snd (handleDelete db tableName i))"
  shows "assembled (sanitized_of {tableName}) q"
proof -
  from handleDelete_calls [OF assms] obtain t where
    t: "sanitizeIdentifier tableName = Inr t" and q: "q = delete_sql t"
    by blast
  show ?thesis
    unfolding q using t
    by (intro assembled_delete_sql assembled_ident sanitized_ofI [of tableName]) auto
qed

lemma sanitized_safe:
  "s \<in> sanitized_of raws \<Longrightarrow> s \<noteq> [] \<and> (\<forall>c \<in> set s. ident_char c) \<and> \<not> starts_with_digit s"
  by (auto simp: sanitized_of_def sanitizeIdentifier_Inr_iff)

lemma page_params_values: "set (page_params sp) \<subseteq> ParseInt ` snd ` set sp"
proof -
  have "map_of sp k = Some v \<Longrightarrow> v \<in> snd ` set sp" for k v
    by (force dest: map_of_SomeD)
  then show ?thesis
    by (auto simp: page_params_def split: option.splits if_splits)
qed

lemma handleGet_params:
  assumes "(q, ps) \<in> set (snd (handleGet db tableName id' sp))"
  shows "set ps \<subseteq> request_values id' sp"
proof -
  from assms have "snd (handleGet db tableName id' sp) \<noteq> []" by auto
  with handleGet_silent [of tableName sp db id'] have
    table: "\<not> isl (sanitizeIdentifier tableName)" and
    cols: "\<forall>k \<in> set (map fst (filter_params sp)). \<not> isl (sanitizeIdentifier k)" and
    sortBy: "\<forall>s. map_of sp ''sort_by'' = Some s \<and> s \<noteq> [] \<longrightarrow> \<not> isl (sanitizeIdentifier s)"
    by blast+
  from assms handleGet_emits [OF table cols sortBy, of db id'] have ps:
    "ps = (case id' of None \<Rightarrow> [] | Some i \<Rightarrow> if i = [] then [] else [Json (JStr i)])
          @ map (\<lambda>(k, v). Json (JStr v)) (filter_params sp) @ page_params sp"
    by simp
  have "set (case id' of None \<Rightarrow> [] | Some i \<Rightarrow> if i = [] then [] else [Json (JStr i)])
          \<subseteq> request_values id' sp"
    by (auto simp: request_values_def split: option.splits)
  moreover have "set (map (\<lambda>(k, v). Json (JStr v)) (filter_params sp)) \<subseteq> request_values id' sp"
  proof
    fix x
    assume "x \<in> set (map (\<lambda>(k, v). Json (JStr v)) (filter_params sp))"
    then obtain k v where "(k, v) \<in> set sp" and x: "x = Json (JStr v)"
      by (auto simp: filter_params_def)
    then have "v \<in> snd ` set sp" by (metis image_eqI snd_conv)
    with x show "x \<in> request_values id' sp"
      unfolding request_values_def by blast
  qed
  moreover have "set (page_params sp) \<subseteq> request_values id' sp"
    using page_params_values [of sp] unfolding request_values_def by blast
  ultimately show ?thesis unfolding ps by simp
qed

lemma get_prop_value:
  "get_prop data col \<in> body_values (Inr data) \<union> {Undefined} \<union> range Inherited"
proof (cases "map_of (entries data) col")
  case None
  then show ?thesis by (simp add: get_prop_def)
next
  case (Some v)
  then have "v \<in> set (values_of data)"
    by (force simp: values_of_def dest: map_of_SomeD)
  with Some show ?thesis by (simp add: get_prop_def body_values_def)
qed

lemma handlePost_params:
  assumes "(q, ps) \<in> set (snd (handlePost db tableName body))"
  shows "set ps \<subseteq> body_values body \<union> {Undefined} \<union> range Inherited"
proof -
  from handlePost_calls [OF assms] obtain data cols where
    "body = Inr data" "ps = map (get_prop data) cols"
    by blast
  then show ?thesis using get_prop_value [of data] by auto
qed

lemma handleUpdate_params:
  assumes "(q, ps) \<in> set (snd (handleUpdate db tableName i body))"
  shows "set ps \<subseteq> body_values body \<union> {Json (JStr i)}"
proof -
  from handleUpdate_calls [OF assms] obtain data where
    "body = Inr data" "ps = map Json (values_of data) @ [Json (JStr i)]"
    by blast
  then show ?thesis by (auto simp: body_values_def)
qed

lemma handleDelete_params:
  assumes "(q, ps) \<in> set (snd (handleDelete db tableName i))"
  shows "ps = [Json (JStr i)]"
  using handleDelete_calls [OF assms] by blast

text \<open>
  C1. Whatever statement a read, a create, an update or a delete sends to the database,
  its text is put together from the literal fragments of the statement templates and from
  outputs of the sanitizer on the request's table name, its filter, insert or update
  column names and its sort key, and every such output is a non-empty word over
  \<^verbatim>\<open>[A-Za-z0-9_]\<close> that does not start with a digit. What is bound to the statement
  are values of the request: the path id, query-string values, values of the body (or
  what \<^verbatim>\<open>data[col]\<close> gives when the body has no such key).
\<close>

theorem statement_identifiers_sanitized:
  "(\<forall>(q, ps) \<in> set (snd (handleGet db tableName id' sp)).
      assembled (sanitized_of ({tableName} \<union> fst ` set sp \<union> {v. (''sort_by'', v) \<in> set sp})) q
      \<and> set ps \<subseteq> request_values id' sp)
   \<and> (\<forall>(q, ps) \<in> set (snd (handlePost db tableName body)).
      assembled (sanitized_of ({tableName} \<union> body_keys body)) q
      \<and> set ps \<subseteq> body_values body \<union> {Undefined} \<union> range Inherited)
   \<and> (\<forall>(q, ps) \<in> set (snd (handleUpdate db tableName i body)).
      assembled (sanitized_of ({tableName} \<union> body_keys body)) q
      \<and> set ps \<subseteq> body_values body \<union> {Json (JStr i)})
   \<and> (\<forall>(q, ps) \<in> set (snd (handleDelete db tableName i)).
      assembled (sanitized_of {tableName}) q \<and> ps = [Json (JStr i)])
   \<and> (\<forall>s \<in> sanitized_of UNIV.
      s \<noteq> [] \<and> (\<forall>c \<in> set s. ident_char c) \<and> \<not> starts_with_digit s)"
proof -
  have reads: "\<forall>(q, ps) \<in> set (snd (handleGet db tableName id' sp)).
      assembled (sanitized_of ({tableName} \<union> fst ` set sp \<union> {v. (''sort_by'', v) \<in> set sp})) q
      \<and> set ps \<subseteq> request_values id' sp"
  proof (rule ballI)
    fix call
    assume sent: "call \<in> set (snd (handleGet db tableName id' sp))"
    obtain q ps where call: "call = (q, ps)" by (cases call)
    from sent handleGet_assembled [of q ps db tableName id' sp]
      handleGet_params [of q ps db tableName id' sp]
    show "case call of (q, ps) \<Rightarrow>
        assembled (sanitized_of ({tableName} \<union> fst ` set sp \<union> {v. (''sort_by'', v) \<in> set sp})) q
        \<and> set ps \<subseteq> request_values id' sp"
      unfolding call by simp
  qed
  have creates: "\<forall>(q, ps) \<in> set (snd (handlePost db tableName body)).
      assembled (sanitized_of ({tableName} \<union> body_keys body)) q
      \<and> set ps \<subseteq> body_values body \<union> {Undefined} \<union> range Inherited"
  proof (rule ballI)
    fix call
    assume sent: "call \<in> set (snd (handlePost db tableName body))"
    obtain q ps where call: "call = (q, ps)" by (cases call)
    from sent handlePost_assembled [of q ps db tableName body]
      handlePost_params [of q ps db tableName body]
    show "case call of (q, ps) \<Rightarrow>
        assembled (sanitized_of ({tableName} \<union> body_keys body)) q
        \<and> set ps \<subseteq> body_values body \<union> {Undefined} \<union> range Inherited"
      unfolding call by simp
  qed
  have updates: "\<forall>(q, ps) \<in> set (snd (handleUpdate db tableName i body)).
      assembled (sanitized_of ({tableName} \<union> body_keys body)) q
      \<and> set ps \<subseteq> body_values body \<union> {Json (JStr i)}"
  proof (rule ballI)
    fix call
    assume sent: "call \<in> set (snd (handleUpdate db tableName i body))"
    obtain q ps where call: "call = (q, ps)" by (cases call)
    from sent handleUpdate_assembled [of q ps db tableName i body]
      handleUpdate_params [of q ps db tableName i body]
    show "case call of (q, ps) \<Rightarrow>
        assembled (sanitized_of ({tableName} \<union> body_keys body)) q
        \<and> set ps \<subseteq> body_values body \<union> {Json (JStr i)}"
      unfolding call by simp
  qed
  have deletes: "\<forall>(q, ps) \<in> set (snd (handleDelete db tableName i)).
      assembled (sanitized_of {tableName}) q \<and> ps = [Json (JStr i)]"
  proof (rule ballI)
    fix call
    assume sent: "call \<in> set (snd (handleDelete db tableName i))"
    obtain q ps where call: "call = (q, ps)" by (cases call)
    from sent handleDelete_assembled [of q ps db tableName i]
      handleDelete_params [of q ps db tableName i]
    show "case call of (q, ps) \<Rightarrow>
        assembled (sanitized_of {tableName}) q \<and> ps = [Json (JStr i)]"
      unfolding call by simp
  qed
  have safe: "\<forall>s \<in> sanitized_of UNIV.
      s \<noteq> [] \<and> (\<forall>c \<in> set s. ident_char c) \<and> \<not> starts_with_digit s"
    using sanitized_safe by blast
  from reads creates updates deletes safe show ?thesis
    by (intro conjI)
qed

theorem statement_identifiers_sanitized_witness:
  "assembled (sanitized_of {''my users'', ''first-name'', ''age'', ''sort_by'', ''last name''})
     ''SELECT * FROM `myusers` WHERE firstname = ? AND age = ? ORDER BY lastname ASC''
   \<and> set [Json (JStr ''Al''), Json (JStr ''25'')]
       \<subseteq> request_values None [(''first-name'', ''Al''), (''age'', ''25''), (''sort_by'', ''last name'')]"
proof -
  let ?sp = "[(''first-name'', ''Al''), (''age'', ''25''), (''sort_by'', ''last name'')]"
  have sent: "snd (handleGet db_ok ''my users'' None ?sp)
          = [(''SELECT * FROM `myusers` WHERE firstname = ? AND age = ? ORDER BY lastname ASC'',
              [Json (JStr ''Al''), Json (JStr ''25'')])]"
    by (simp add: handleGet_def add_sort_def add_page_def sort_order_def get_failed_def
          db_ok_def eval_defs)
  have raws: "{''my users''} \<union> fst ` set ?sp \<union> {v. (''sort_by'', v) \<in> set ?sp}
          = {''my users'', ''first-name'', ''age'', ''sort_by'', ''last name''}"
    by auto
  have "\<forall>(q, ps) \<in> set (snd (handleGet db_ok ''my users'' None ?sp)).
      assembled (sanitized_of ({''my users''} \<union> fst ` set ?sp \<union> {v. (''sort_by'', v) \<in> set ?sp})) q
      \<and> set ps \<subseteq> request_values None ?sp"
    using statement_identifiers_sanitized [of db_ok "''my users''" None ?sp] by (rule conjunct1)
  then show ?thesis
    unfolding sent raws by (simp only: list.set ball_simps prod.case)
qed

section \<open>Creates\<close>

text \<open>
  When every key of the body is an identifier the sanitizer leaves as it is, a create sends
  \<^verbatim>\<open>INSERT INTO <table> (<cols>) VALUES (<placeholders>)\<close> with the body's values bound
  in key order.
\<close>

lemma sanitize_each_clean:
  "\<forall>k \<in> set ks. sanitizeIdentifier k = Inr k \<Longrightarrow> sanitize_each ks = Inr ks"
  by (induction ks) simp_all

lemma get_prop_own:
  "distinct (map fst kvs) \<Longrightarrow> (k, v) \<in> set kvs \<Longrightarrow> get_prop (JObj kvs) k = Json v"
  by (simp add: get_prop_def)

lemma handlePost_clean_keys:
  assumes t: "sanitizeIdentifier tableName = Inr t"
      and nonempty: "kvs \<noteq> []"
      and clean: "\<forall>k \<in> set (map fst kvs). sanitizeIdentifier k = Inr k"
      and own: "distinct (map fst kvs)"
  shows "snd (handlePost db tableName (Inr (JObj kvs)))
           = [(insert_sql t (map fst kvs), map (Json \<circ> snd) kvs)]"
proof -
  have cols: "sanitize_each (keys (JObj kvs)) = Inr (map fst kvs)"
    using clean by (simp add: keys_def sanitize_each_clean)
  have params: "\<forall>kv \<in> set kvs. get_prop (JObj kvs) (fst kv) = Json (snd kv)"
    using own by (auto simp: get_prop_own)
  have obj: "\<not> not_an_object (JObj kvs)" "length (keys (JObj kvs)) \<noteq> 0"
    using nonempty by (simp_all add: not_an_object_def keys_def)
  show ?thesis
    using obj
    by (simp add: handlePost_def sanitizeKeyword_Inr [OF t] cols params insert_sql_def
          post_failed_def Let_def split: sum.splits)
qed

lemma create_example:
  "handlePost db_ok ''users'' (Inr (JObj [(''name'', JStr ''John''), (''age'', JNum 30)]))
     = (json_response (CreatedBody (JObj [(''name'', JStr ''John''), (''age'', JNum 30)]) True) 201,
        [(''INSERT INTO `users` (name, age) VALUES (?, ?)'', [Json (JStr ''John''), Json (JNum 30)])])"
  by (simp add: handlePost_def not_an_object_def keys_def get_prop_def db_ok_def eval_defs)

text \<open>
  C3 at a body whose key the sanitizer changes. The parameters are
  \<^verbatim>\<open>columns.map(col => data[col])\<close>: the value is looked up under the sanitized name,
  which is not a key of the body, so \<^verbatim>\<open>undefined\<close> is bound in place of the body's
  value \<^verbatim>\<open>"John"\<close>.
\<close>

theorem create_binds_by_sanitized_name:
  "snd (handlePost db ''users'' (Inr (JObj [(''na-me'', JStr ''John'')])))
     = [(''INSERT INTO `users` (name) VALUES (?)'', [Undefined])]"
  by (simp add: handlePost_def not_an_object_def keys_def get_prop_def object_prototype_def
        post_failed_def Let_def eval_defs split: sum.splits)

section \<open>The raw query route\<close>

lemma is_space_to_lower: "is_space (to_lower c) = is_space c"
  by (auto simp: to_lower_def is_space_def split: option.splits if_splits)

lemma toLowerCase_trim: "toLowerCase (trim s) = trim (toLowerCase s)"
proof -
  have "is_space \<circ> to_lower = is_space"
    by (rule ext) (simp add: is_space_to_lower)
  then show ?thesis
    by (simp add: toLowerCase_def trim_def rev_map dropWhile_map)
qed

lemma drop_select_multiple:
  assumes "toLowerCase query = ''drop table users; select 1''"
  shows "multiple_statements query"
proof -
  have "toLowerCase (trim query) = trim ''drop table users; select 1''"
    using assms by (simp add: toLowerCase_trim)
  also have "\<dots> = ''drop table users; select 1''"
    by (simp add: trim_def is_space_def)
  finally show ?thesis
    by (simp add: multiple_statements_def trim_def is_space_def)
qed

text \<open>
  C2 as the code has it. A body whose \<^verbatim>\<open>query\<close> is \<^verbatim>\<open>DROP TABLE users; SELECT 1\<close> in any
  letter case is rejected with the message \<^verbatim>\<open>Multiple SQL statements are not allowed\<close> (400), the
  check that comes first, and nothing is sent to the database.
\<close>

theorem query_drop_select_rejected:
  assumes "toLowerCase query = ''drop table users; select 1''"
      and "map_of kvs ''query'' = Some (JStr query)"
  shows "handleQuery db (Inr (JObj kvs))
           = (json_response (ErrorBody ''Multiple SQL statements are not allowed'') 400, [])"
proof -
  have "query \<noteq> []"
    using assms(1) by (auto simp: toLowerCase_def)
  with assms(2) drop_select_multiple [OF assms(1)] show ?thesis
    by (simp add: handleQuery_def)
qed

theorem query_drop_select_rejected_witness:
  "handleQuery db_ok (Inr (JObj [(''query'', JStr ''Drop Table users; SELECT 1''), (''params'', JArr [])]))
     = (json_response (ErrorBody ''Multiple SQL statements are not allowed'') 400, [])"
proof -
  have l: "toLowerCase ''Drop Table users; SELECT 1'' = ''drop table users; select 1''"
    by (simp add: toLowerCase_def to_lower_def)
  have q: "map_of [(''query'', JStr ''Drop Table users; SELECT 1''), (''params'', JArr [])] ''query''
             = Some (JStr ''Drop Table users; SELECT 1'')"
    by simp
  show ?thesis
    by (rule query_drop_select_rejected [OF l q])
qed

text \<open>The answer to that query is not the 403 of the denylist.\<close>

theorem query_drop_select_counterexample:
  "handleQuery db_ok (Inr (JObj [(''query'', JStr ''DROP TABLE users; SELECT 1'')]))
     = (json_response (ErrorBody ''Multiple SQL statements are not allowed'') 400, [])
   \<and> status (fst (handleQuery db_ok (Inr (JObj [(''query'', JStr ''DROP TABLE users; SELECT 1'')]))))
        \<noteq> 403"
  by (simp add: handleQuery_def multiple_statements_def toLowerCase_def to_lower_def trim_def
        is_space_def json_response_def)

section \<open>The rate limiter\<close>

lemma rateLimit_exhausted:
  "requestCounts ip = Some e \<Longrightarrow> \<not> now > resetTime e \<Longrightarrow> count e \<ge> MAX_REQUESTS \<Longrightarrow>
   rateLimit now ip requestCounts = (requestCounts, Some too_many_requests)"
  by (simp add: rateLimit_def)

lemma rateLimit_expired:
  "requestCounts ip = Some e \<Longrightarrow> now > resetTime e \<Longrightarrow>
   rateLimit now ip requestCounts =
     (requestCounts(ip \<mapsto> \<lparr>count = 1, resetTime = now + RATE_LIMIT_WINDOW\<rparr>), None)"
  by (simp add: rateLimit_def)

lemma rateLimit_counted:
  "requestCounts ip = Some e \<Longrightarrow> \<not> now > resetTime e \<Longrightarrow> count e < MAX_REQUESTS \<Longrightarrow>
   rateLimit now ip requestCounts =
     (requestCounts(ip \<mapsto> e\<lparr>count := count e + 1\<rparr>), None)"
  by (simp add: rateLimit_def)

lemma rateLimit_first:
  "requestCounts ip = None \<Longrightarrow>
   rateLimit now ip requestCounts =
     (requestCounts(ip \<mapsto> \<lparr>count = 1, resetTime = now + RATE_LIMIT_WINDOW\<rparr>), None)"
  by (simp add: rateLimit_def)

lemma arrivals_within_window:
  "requestCounts ip = Some e \<Longrightarrow> \<forall>t \<in> set ts. t \<le> resetTime e \<Longrightarrow>
   count e + int (length ts) \<le> MAX_REQUESTS \<Longrightarrow>
   arrivals ip ts requestCounts =
     (requestCounts(ip \<mapsto> e\<lparr>count := count e + int (length ts)\<rparr>),
      replicate (length ts) None)"
proof (induction ts arbitrary: requestCounts e)
  case Nil
  then show ?case by (simp add: fun_upd_idem)
next
  case (Cons t ts)
  let ?e = "e\<lparr>count := count e + 1\<rparr>"
  let ?counts = "requestCounts(ip \<mapsto> ?e)"
  have step: "rateLimit t ip requestCounts = (?counts, None)"
    using Cons.prems by (intro rateLimit_counted) auto
  have "arrivals ip ts ?counts =
          (?counts(ip \<mapsto> ?e\<lparr>count := count ?e + int (length ts)\<rparr>), replicate (length ts) None)"
    using Cons.prems by (intro Cons.IH) auto
  with step show ?case by (simp add: add.assoc fun_eq_iff)
qed

lemma arrivals_append:
  "arrivals ip (ts @ us) requestCounts =
     (case arrivals ip ts requestCounts of
        (counts', rs) \<Rightarrow>
          (case arrivals ip us counts' of (counts'', rs') \<Rightarrow> (counts'', rs @ rs')))"
  by (induction ts arbitrary: requestCounts) (auto split: prod.splits)

lemma window_run:
  assumes new: "requestCounts ip = None"
      and n: "length ts = 99"
      and within: "\<forall>t \<in> set ts. t \<le> t0 + RATE_LIMIT_WINDOW"
      and last: "t101 \<le> t0 + RATE_LIMIT_WINDOW"
  shows "arrivals ip (t0 # ts @ [t101]) requestCounts =
           (requestCounts(ip \<mapsto> \<lparr>count = 100, resetTime = t0 + RATE_LIMIT_WINDOW\<rparr>),
            replicate 100 None @ [Some too_many_requests])"
proof -
  let ?e1 = "\<lparr>count = 1, resetTime = t0 + RATE_LIMIT_WINDOW\<rparr>"
  let ?c1 = "requestCounts(ip \<mapsto> ?e1)"
  let ?e100 = "\<lparr>count = 100, resetTime = t0 + RATE_LIMIT_WINDOW\<rparr>"
  let ?c100 = "requestCounts(ip \<mapsto> ?e100)"
  have first: "rateLimit t0 ip requestCounts = (?c1, None)"
    using new by (rule rateLimit_first)
  have "arrivals ip ts ?c1 =
          (?c1(ip \<mapsto> ?e1\<lparr>count := count ?e1 + int (length ts)\<rparr>), replicate (length ts) None)"
    using within n by (intro arrivals_within_window) (auto simp: MAX_REQUESTS_def)
  then have mid: "arrivals ip ts ?c1 = (?c100, replicate 99 None)"
    using n by simp
  have "rateLimit t101 ip ?c100 = (?c100, Some too_many_requests)"
    using last by (intro rateLimit_exhausted) (auto simp: MAX_REQUESTS_def)
  then have final: "arrivals ip [t101] ?c100 = (?c100, [Some too_many_requests])"
    by simp
  have r100: "replicate 100 None = (None :: response option) # replicate 99 None"
    by (simp add: numeral_eq_Suc)
  from first mid final show ?thesis
    by (simp add: arrivals_append r100)
qed

text \<open>
  C5. A request that finds its client's entry at 100 or more, in a window that has not
  expired, is answered 429 and leaves the map as it was; a request after \<^verbatim>\<open>resetTime\<close>
  passes and replaces the entry by count 1 and a new \<^verbatim>\<open>resetTime\<close>. So of 101 requests
  of a new client within 60 seconds of the first, 100 pass and the last is answered 429,
  and the next request after the window passes and resets the counter.
\<close>

theorem rate_limit_window:
  "(requestCounts ip = Some e \<and> \<not> now > resetTime e \<and> count e \<ge> 100 \<longrightarrow>
      rateLimit now ip requestCounts = (requestCounts, Some too_many_requests)
      \<and> status too_many_requests = 429)
   \<and> (requestCounts ip = Some e \<and> now > resetTime e \<longrightarrow>
      rateLimit now ip requestCounts =
        (requestCounts(ip \<mapsto> \<lparr>count = 1, resetTime = now + 60000\<rparr>), None))
   \<and> (requestCounts ip = None \<and> length ts = 99 \<and> (\<forall>t \<in> set ts. t \<le> t0 + 60000)
        \<and> t101 \<le> t0 + 60000 \<and> later > t0 + 60000 \<longrightarrow>
      (\<exists>counts'. arrivals ip (t0 # ts @ [t101]) requestCounts =
                    (counts', replicate 100 None @ [Some too_many_requests])
         \<and> rateLimit later ip counts' =
             (counts'(ip \<mapsto> \<lparr>count = 1, resetTime = later + 60000\<rparr>), None)))"
proof (intro conjI impI)
  assume "requestCounts ip = Some e \<and> \<not> now > resetTime e \<and> count e \<ge> 100"
  then show "rateLimit now ip requestCounts = (requestCounts, Some too_many_requests)"
    by (simp add: rateLimit_exhausted MAX_REQUESTS_def)
next
  show "status too_many_requests = 429"
    by (simp add: too_many_requests_def json_response_def)
next
  assume "requestCounts ip = Some e \<and> now > resetTime e"
  then show "rateLimit now ip requestCounts =
        (requestCounts(ip \<mapsto> \<lparr>count = 1, resetTime = now + 60000\<rparr>), None)"
    using rateLimit_expired [of requestCounts ip e now] by (simp add: RATE_LIMIT_WINDOW_def)
next
  assume a: "requestCounts ip = None \<and> length ts = 99 \<and> (\<forall>t \<in> set ts. t \<le> t0 + 60000)
        \<and> t101 \<le> t0 + 60000 \<and> later > t0 + 60000"
  let ?c = "requestCounts(ip \<mapsto> \<lparr>count = 100, resetTime = t0 + RATE_LIMIT_WINDOW\<rparr>)"
  have run: "arrivals ip (t0 # ts @ [t101]) requestCounts =
               (?c, replicate 100 None @ [Some too_many_requests])"
    using a by (intro window_run) (auto simp: RATE_LIMIT_WINDOW_def)
  have "rateLimit later ip ?c = (?c(ip \<mapsto> \<lparr>count = 1, resetTime = later + RATE_LIMIT_WINDOW\<rparr>), None)"
    using a by (intro rateLimit_expired) (auto simp: RATE_LIMIT_WINDOW_def)
  with run show "\<exists>counts'. arrivals ip (t0 # ts @ [t101]) requestCounts =
                    (counts', replicate 100 None @ [Some too_many_requests])
         \<and> rateLimit later ip counts' =
             (counts'(ip \<mapsto> \<lparr>count = 1, resetTime = later + 60000\<rparr>), None)"
    by (auto simp: RATE_LIMIT_WINDOW_def)
qed


theorem rate_limit_window_witness:
  "rateLimit 5 ''10.0.0.1'' [''10.0.0.1'' \<mapsto> \<lparr>count = 100, resetTime = 10\<rparr>]
     = ([''10.0.0.1'' \<mapsto> \<lparr>count = 100, resetTime = 10\<rparr>], Some too_many_requests)
   \<and> rateLimit 11 ''10.0.0.1'' [''10.0.0.1'' \<mapsto> \<lparr>count = 100, resetTime = 10\<rparr>]
     = ([''10.0.0.1'' \<mapsto> \<lparr>count = 1, resetTime = 60011\<rparr>], None)
   \<and> snd (arrivals ''10.0.0.1'' (0 # replicate 99 5 @ [60000]) Map.empty)
     = replicate 100 None @ [Some too_many_requests]"
proof -
  let ?full = "[''10.0.0.1'' \<mapsto> \<lparr>count = 100, resetTime = 10\<rparr>]"
  have a: "rateLimit 5 ''10.0.0.1'' ?full = (?full, Some too_many_requests)"
    using rate_limit_window [of ?full "''10.0.0.1''" "\<lparr>count = 100, resetTime = 10\<rparr>" 5]
    by simp
  have b: "rateLimit 11 ''10.0.0.1'' ?full
             = ([''10.0.0.1'' \<mapsto> \<lparr>count = 1, resetTime = 60011\<rparr>], None)"
    using rate_limit_window [of ?full "''10.0.0.1''" "\<lparr>count = 100, resetTime = 10\<rparr>" 11]
    by simp
  have c: "snd (arrivals ''10.0.0.1'' (0 # replicate 99 5 @ [60000]) Map.empty)
             = replicate 100 None @ [Some too_many_requests]"
    using rate_limit_window [of Map.empty "''10.0.0.1''" _ _ "replicate 99 5" 0 60000 60001]
    by auto
  from a b c show ?thesis by simp
qed

section \<open>The authentication middleware\<close>

text \<open>
  A token that differs from the secret, in length or in content, gets the same answer.
\<close>

lemma authMiddleware_mismatch:
  assumes "hdr ''authorization'' = Some h" and "h \<noteq> []"
      and "(if startsWith ''Bearer '' h then drop 7 h else h) \<noteq> secret"
  shows "authMiddleware secret hdr = Some (unauthorized ''Unauthorized: Invalid authentication token'')"
  using assms by (simp add: authMiddleware_def Let_def)

section \<open>Rate limiting comes before authentication\<close>








end
